theory Spec2Isabelle
  imports Main "HOL-Library.AList"
begin

section \<open>JavaScript values used by the event module\<close>

text \<open>
  DOM nodes, the document and other host objects are identified by a reference, and so
  are callback functions: two of them are the same object exactly when the references
  are equal (JavaScript's \<open>===\<close> on objects).
\<close>

datatype elem = Elem nat

datatype func = Func nat

text \<open>
  A numeric property of a host object. Coordinates and scroll offsets are integer valued
  (DOM \<open>long\<close>); a property that is not there reads as \<open>Undefined\<close>.
\<close>

datatype jsnum = Undefined | Null | NaN | Num int

text \<open>Truthiness, \<open>a || b\<close>, and \<open>+\<close> and \<open>-\<close> after \<open>ToNumber\<close>.\<close>

fun truthy :: "jsnum \<Rightarrow> bool" where
  "truthy (Num n) = (n \<noteq> 0)"
| "truthy _ = False"

definition js_or :: "jsnum \<Rightarrow> jsnum \<Rightarrow> jsnum" where
  "js_or a b = (if truthy a then a else b)"

fun toNumber :: "jsnum \<Rightarrow> int option" where
  "toNumber (Num n) = Some n"
| "toNumber Null = Some 0"
| "toNumber _ = None"

definition js_plus :: "jsnum \<Rightarrow> jsnum \<Rightarrow> jsnum" where
  "js_plus a b = (case (toNumber a, toNumber b) of
                    (Some x, Some y) \<Rightarrow> Num (x + y)
                  | _ \<Rightarrow> NaN)"

definition js_minus :: "jsnum \<Rightarrow> jsnum \<Rightarrow> jsnum" where
  "js_minus a b = (case (toNumber a, toNumber b) of
                     (Some x, Some y) \<Rightarrow> Num (x - y)
                   | _ \<Rightarrow> NaN)"

text \<open>
  Strings are byte strings: \<open>toLowerCase\<close> maps the letters \<open>A\<close> to \<open>Z\<close> to \<open>a\<close> to
  \<open>z\<close> and leaves every other character alone, and an uppercase character is one of
  \<open>A\<close> to \<open>Z\<close>. \<open>String.fromCharCode\<close> builds the one-character string of a
  character code (of code 0 when the code is \<open>undefined\<close>); codes are those of single
  bytes.
\<close>

definition toLowerCase_char :: "char \<Rightarrow> char" where
  "toLowerCase_char c =
     (let n = (of_char c :: nat) in if 65 \<le> n \<and> n \<le> 90 then char_of (n + 32) else c)"

definition toLowerCase :: "string \<Rightarrow> string" where
  "toLowerCase s = map toLowerCase_char s"


definition fromCharCode :: "nat option \<Rightarrow> string" where
  "fromCharCode code = (case code of None \<Rightarrow> [char_of (0::nat)] | Some n \<Rightarrow> [char_of n])"

text \<open>The payload of a custom event: an object of named values; \<open>{}\<close> is the empty list.\<close>

type_synonym payload = "(string \<times> string) list"

datatype error = Error string | TypeError

section \<open>Host objects\<close>

text \<open>
  An event object as the host hands it to a listener: the properties that the module
  reads or writes. A property that is absent is \<open>None\<close>, \<open>Undefined\<close> or \<open>False\<close>.
  \<open>stopPropagation\<close> and \<open>preventDefault\<close> say whether the object has the method.
\<close>

record event =
  type :: "string option"
  eventType :: "string option"
  eventName :: "string option"
  model :: "payload option"
  target :: "elem option"
  srcElement :: "elem option"
  currentTarget :: "elem option"
  relatedTarget :: "elem option"
  fromElement :: "elem option"
  toElement :: "elem option"
  eventPhase :: "nat option"
  clientX :: jsnum
  clientY :: jsnum
  screenX :: jsnum
  screenY :: jsnum
  pageX :: jsnum
  pageY :: jsnum
  altKey :: bool
  ctrlKey :: bool
  shiftKey :: bool
  keyCode :: "nat option"
  charCode :: "nat option"
  bubbles :: bool
  cancelable :: bool
  stopPropagation :: bool
  preventDefault :: bool

text \<open>The object a host constructor returns before any property is set.\<close>

definition bare_event :: event where
  "bare_event = \<lparr> type = None, eventType = None, eventName = None, model = None,
     target = None, srcElement = None, currentTarget = None, relatedTarget = None,
     fromElement = None, toElement = None, eventPhase = None,
     clientX = Undefined, clientY = Undefined, screenX = Undefined, screenY = Undefined,
     pageX = Undefined, pageY = Undefined,
     altKey = False, ctrlKey = False, shiftKey = False,
     keyCode = None, charCode = None, bubbles = False, cancelable = False,
     stopPropagation = False, preventDefault = False \<rparr>"

section \<open>The key dispatcher (class KeyMap)\<close>

text \<open>
  \<open>this.map\<close>: the own properties of a plain object, from composite key names to handler
  functions. The table \<open>PrintableChars\<close> of key names by key code is imported from a
  module of its own and is a parameter of \<open>dispatch\<close>.
\<close>

record 'f KeyMap =
  kmap :: "string \<rightharpoonup> 'f"




text \<open>
  \<open>PrintableChars[code]\<close>, and the truth value of a string that may be \<open>undefined\<close>: it
  is there and not empty.
\<close>

definition lookup_code :: "(nat \<rightharpoonup> string) \<Rightarrow> nat option \<Rightarrow> string option" where
  "lookup_code table code = (case code of None \<Rightarrow> None | Some c \<Rightarrow> table c)"

definition truthy_string :: "string option \<Rightarrow> bool" where
  "truthy_string str = (case str of None \<Rightarrow> False | Some s \<Rightarrow> s \<noteq> [])"

text \<open>The three \<open>modifiers +=\<close> statements of the key-down branch, in their order.\<close>

definition modifier_prefix :: "event \<Rightarrow> string" where
  "modifier_prefix e =
     (if altKey e then ''alt_'' else '''') @
     (if ctrlKey e then ''ctrl_'' else '''') @
     (if shiftKey e then ''shift_'' else '''')"

text \<open>\<open>e.charCode || e.keyCode\<close>.\<close>

definition pressed_code :: "event \<Rightarrow> nat option" where
  "pressed_code e =
     (case charCode e of
        Some c \<Rightarrow> if c \<noteq> 0 then Some c else keyCode e
      | None \<Rightarrow> keyCode e)"

text \<open>
  \<open>dispatch\<close>, first half (the \<open>if\<close>/\<open>else if\<close> on the event type): the modifier prefix
  and the key name, or \<open>None\<close> where the method returns early. The key name stays \<open>null\<close>
  (here \<open>None\<close>) for an event that is neither a key-down nor a key-press.
\<close>

definition key_of :: "(nat \<rightharpoonup> string) \<Rightarrow> event \<Rightarrow> (string \<times> string option) option" where
  "key_of PrintableChars e =
     (if type e = Some ''keydown'' then
        (let code = keyCode e in
         if code = Some 16 \<or> code = Some 17 \<or> code = Some 18 then None
         else
           let keyname = lookup_code PrintableChars code;
               keyname = (if \<not> truthy_string keyname \<and> (altKey e \<or> ctrlKey e)
                          then lookup_code PrintableChars code else keyname)
           in if truthy_string keyname then Some (modifier_prefix e, keyname) else None)
      else if type e = Some ''keypress'' then
        (if altKey e \<or> ctrlKey e then None
         else if charCode e \<noteq> None \<and> charCode e = Some 0 then None
         else
           let code = pressed_code e;
               keyname = fromCharCode code;
               lowercase = toLowerCase keyname
           in if keyname \<noteq> lowercase then Some (''shift_'', Some lowercase)
              else Some ('''', Some keyname))
      else Some ('''', None))"

text \<open>The template string of \<open>modifiers\<close> and \<open>keyname\<close>; \<open>null\<close> prints as \<open>null\<close>.\<close>

definition composite :: "string \<Rightarrow> string option \<Rightarrow> string" where
  "composite modifiers keyname =
     modifiers @ (case keyname of None \<Rightarrow> ''null'' | Some k \<Rightarrow> k)"

text \<open>
  What a call of \<open>dispatch\<close> does: it returns \<open>undefined\<close> with no handler called, or it
  calls the handler with the target, the composite key name and the event, stops the
  event (by the method, or by the legacy flag when the method is missing) and returns
  \<open>false\<close>.
\<close>

datatype stop_effect =
  Call_stopPropagation | Set_cancelBubble | Call_preventDefault | Set_returnValue

datatype 'f dispatched =
  Returned_undefined
| Invoked 'f "elem option" string event "stop_effect list"

definition dispatch ::
  "'f KeyMap \<Rightarrow> (nat \<rightharpoonup> string) \<Rightarrow> event option \<Rightarrow> event option \<Rightarrow> error + 'f dispatched"
where
  "dispatch this PrintableChars window_event event =
     (case (case event of Some e \<Rightarrow> Some e | None \<Rightarrow> window_event) of
        None \<Rightarrow> Inl TypeError
      | Some e \<Rightarrow>
          (case key_of PrintableChars e of
             None \<Rightarrow> Inr Returned_undefined
           | Some (modifiers, keyname) \<Rightarrow>
               (case kmap this (composite modifiers keyname) of
                  None \<Rightarrow> Inr Returned_undefined
                | Some func \<Rightarrow>
                    Inr (Invoked func
                          (case target e of Some t \<Rightarrow> Some t | None \<Rightarrow> srcElement e)
                          (composite modifiers keyname) e
                          [if stopPropagation e then Call_stopPropagation else Set_cancelBubble,
                           if preventDefault e then Call_preventDefault else Set_returnValue]))))"





section \<open>The event registry\<close>

subsection \<open>The host\<close>

text \<open>
  The numeric properties of \<open>document.documentElement\<close> and \<open>document.body\<close>, and the
  properties of a DOM node that \<open>element\<close> reads.
\<close>

record box =
  scrollLeft :: jsnum
  scrollTop :: jsnum
  clientLeft :: jsnum
  clientTop :: jsnum

record node =
  tagName :: "string option"
  type_attr :: "string option"
  nodeType :: "nat option"
  parentNode :: "elem option"

text \<open>
  What the module asks of the host: which primitives exist (\<open>window.attachEvent\<close>,
  \<open>document.createEvent\<close>, \<open>document.createEventObject\<close>, and per object
  \<open>dispatchEvent\<close>, \<open>addEventListener\<close>, \<open>removeEventListener\<close>), the document and its
  root element (a document always has one), the body when there is one, the nodes, and
  the element lookup \<open>HTML.getElement\<close> of the HTML package.
\<close>

record host =
  window_attachEvent :: bool
  createEvent :: bool
  createEventObject :: bool
  document :: elem
  documentElement :: elem
  docElem :: box
  body :: "box option"
  document_clientLeft :: jsnum
  document_clientTop :: jsnum
  dispatchEvent :: "elem \<Rightarrow> bool"
  addEventListener :: "elem \<Rightarrow> bool"
  removeEventListener :: "elem \<Rightarrow> bool"
  node_of :: "elem \<Rightarrow> node"
  getElement :: "string \<Rightarrow> elem option"

text \<open>\<open>HTML.nodeType.TEXT_NODE\<close>, the DOM constant.\<close>

definition TEXT_NODE :: nat where
  "TEXT_NODE = 3"

text \<open>
  Modelled from the spec: the module \<open>./is-custom-event\<close> that \<open>event.js\<close> imports is not
  among the sources. The spec: \<open>isCustomEvent(name)\<close> returns true iff \<open>name\<close> contains a
  \<open>:\<close> separator. (The comment of \<open>add\<close> in \<open>event.js\<close>: custom events follow the
  \<open>noun:verb\<close> naming convention.)
\<close>

definition isCustomEvent :: "string \<Rightarrow> bool" where
  "isCustomEvent name = (CHR '':'' \<in> set name)"

subsection \<open>normalize\<close>

text \<open>
  The result of \<open>normalize\<close>: the host's event itself, or a new object together with the
  raw event it keeps as \<open>_event\<close>. The new object has both methods. \<open>body.cientLeft\<close> and
  \<open>body.cientTop\<close> (so spelt in the source) are properties no body has.
\<close>

datatype normalized = Host_event event | Normalized event event

definition normalize :: "host \<Rightarrow> event \<Rightarrow> elem \<Rightarrow> normalized" where
  "normalize host ev el =
     (if \<not> window_attachEvent host then Host_event ev
      else
        let n = bare_event\<lparr>
                  type := type ev,
                  target := srcElement ev,
                  currentTarget := Some el,
                  relatedTarget := (case fromElement ev of Some f \<Rightarrow> Some f | None \<Rightarrow> toElement ev),
                  eventPhase := Some (if srcElement ev = Some el then 2 else 3),
                  clientX := clientX ev,
                  clientY := clientY ev,
                  screenX := screenX ev,
                  screenY := screenY ev,
                  altKey := altKey ev,
                  ctrlKey := ctrlKey ev,
                  shiftKey := shiftKey ev,
                  charCode := keyCode ev,
                  model := Some (case model ev of Some m \<Rightarrow> m | None \<Rightarrow> []),
                  stopPropagation := True,
                  preventDefault := True \<rparr>;
            doc = docElem host;
            body_scrollLeft = (case body host of Some b \<Rightarrow> scrollLeft b | None \<Rightarrow> Undefined);
            body_scrollTop = (case body host of Some b \<Rightarrow> scrollTop b | None \<Rightarrow> Undefined);
            n = (if clientX ev \<noteq> Null then
                   n\<lparr> pageX := js_minus
                                 (js_plus (clientX ev)
                                    (js_or (js_or (scrollLeft doc) body_scrollLeft) (Num 0)))
                                 (js_or (js_or (clientLeft doc) Undefined) (Num 0)),
                      pageY := js_minus
                                 (js_plus (clientY ev)
                                    (js_or (js_or (scrollTop doc) body_scrollTop) (Num 0)))
                                 (js_or (js_or (clientTop doc) Undefined) (Num 0)) \<rparr>
                 else n)
        in Normalized n ev)"

subsection \<open>Handlers and the per-element store\<close>

text \<open>
  A handler is the wrapper function that \<open>createHandler\<close> builds. \<open>wid\<close> is the identity
  of the function object (no two wrappers share it), \<open>h_element\<close>, \<open>h_eventName\<close> and
  \<open>h_callback\<close> are the variables its body closes over, \<open>h_body\<close> says which of the two
  function bodies it has, and \<open>callback\<close> is its property \<open>handler.callback\<close>, which
  \<open>remove\<close> deletes.
\<close>

datatype wrapper_body = Custom_wrapper | Native_wrapper

record handler =
  wid :: nat
  h_element :: elem
  h_eventName :: string
  h_callback :: func
  h_body :: wrapper_body
  callback :: "func option"

text \<open>
  Calling a wrapper with an event: it returns \<open>false\<close> without calling the callback, or
  it calls \<open>callback.call(element, event)\<close> with the normalized event.
\<close>

datatype invocation = Returned_false | Called func elem normalized

definition call_handler :: "host \<Rightarrow> handler \<Rightarrow> event \<Rightarrow> invocation" where
  "call_handler host h ev =
     (case h_body h of
        Custom_wrapper \<Rightarrow>
          if eventName ev = None then Returned_false
          else if eventName ev \<noteq> Some (h_eventName h) then Returned_false
          else Called (h_callback h) (h_element h) (normalize host ev (h_element h))
      | Native_wrapper \<Rightarrow>
          Called (h_callback h) (h_element h) (normalize host ev (h_element h)))"

text \<open>
  The object kept under \<open>"events"\<close> in an element's storage: event names to handler
  arrays, in insertion order. The world is the storage of the DOM package, the module's
  \<open>eventCache\<close>, the next free wrapper identity and the calls made to the host so far.
\<close>

type_synonym events_model = "(string \<times> handler list) list"

datatype host_call =
  AddEventListener elem string nat
| AttachEvent elem string nat
| RemoveEventListener elem string nat
| DetachEvent elem string nat
| DispatchEvent elem event
| FireEvent elem string event

record world =
  storage :: "elem \<rightharpoonup> events_model"
  eventCache :: "elem list"
  next_wid :: nat
  host_calls :: "host_call list"

definition init_world :: world where
  "init_world = \<lparr> storage = Map.empty, eventCache = [], next_wid = 0, host_calls = [] \<rparr>"

definition model_of :: "world \<Rightarrow> elem \<Rightarrow> events_model" where
  "model_of w el = (case storage w el of None \<Rightarrow> [] | Some mdl \<Rightarrow> mdl)"

definition handlers_of :: "world \<Rightarrow> elem \<Rightarrow> string \<Rightarrow> handler list" where
  "handlers_of w el name = (case map_of (model_of w el) name of None \<Rightarrow> [] | Some hs \<Rightarrow> hs)"

definition registrations :: "func \<Rightarrow> handler list \<Rightarrow> nat" where
  "registrations cb hs = length (filter (\<lambda>h. callback h = Some cb) hs)"


subsection \<open>createHandler and add\<close>

definition createHandler :: "world \<Rightarrow> elem \<Rightarrow> string \<Rightarrow> func \<Rightarrow> handler option \<times> world" where
  "createHandler w el name cb =
     (let w1 = (case storage w el of
                  None \<Rightarrow> w\<lparr> storage := (storage w)(el \<mapsto> []),
                             eventCache := eventCache w @ [el] \<rparr>
                | Some _ \<Rightarrow> w);
          w2 = (case map_of (model_of w1 el) name of
                  None \<Rightarrow> w1\<lparr> storage :=
                              (storage w1)(el \<mapsto> AList.update name [] (model_of w1 el)) \<rparr>
                | Some _ \<Rightarrow> w1);
          handlers = handlers_of w2 el name;
          handlersForEvent = map callback handlers
      in if Some cb \<in> set handlersForEvent then (None, w2)
         else
           let h = \<lparr> wid = next_wid w2, h_element = el, h_eventName = name, h_callback = cb,
                      h_body = (if isCustomEvent name then Custom_wrapper else Native_wrapper),
                      callback = Some cb \<rparr>
           in (Some h,
               w2\<lparr> storage :=
                      (storage w2)(el \<mapsto> AList.update name (handlers @ [h]) (model_of w2 el)),
                    next_wid := Suc (next_wid w2) \<rparr>))"

text \<open>
  The first argument of \<open>add\<close>: a string to resolve, a node, or nothing (\<open>null\<close> or
  \<open>undefined\<close>). The result is the thrown error or the returned element, and the world
  after the call.
\<close>

datatype element_arg = Selector string | Node elem | Nothing

definition resolve :: "host \<Rightarrow> element_arg \<Rightarrow> elem option" where
  "resolve host arg =
     (case arg of Selector s \<Rightarrow> getElement host s | Node n \<Rightarrow> Some n | Nothing \<Rightarrow> None)"

definition add ::
  "host \<Rightarrow> world \<Rightarrow> element_arg \<Rightarrow> string \<Rightarrow> func \<Rightarrow> (error + elem) \<times> world"
where
  "add host w arg name cb =
     (case resolve host arg of
        None \<Rightarrow>
          (Inl (Error (''Invalid element provided for event '' @ [CHR 0x22] @ name @ [CHR 0x22])), w)
      | Some el \<Rightarrow>
          (case createHandler w el name cb of
             (None, w1) \<Rightarrow> (Inr el, w1)
           | (Some h, w1) \<Rightarrow>
               (Inr el,
                w1\<lparr> host_calls := host_calls w1 @
                  (if isCustomEvent name then
                     (if addEventListener host el
                      then [AddEventListener el ''dataavailable'' (wid h)]
                      else [AttachEvent el ''ondataavailable'' (wid h),
                            AttachEvent el ''onfilterchange'' (wid h)])
                   else
                     (if addEventListener host el
                      then [AddEventListener el name (wid h)]
                      else [AttachEvent el (''on'' @ name) (wid h)])) \<rparr>)))"

subsection \<open>remove\<close>

text \<open>
  \<open>Array.indexOf\<close> (\<open>-1\<close> when the object is not in the array; a handler is found by its
  identity, and two records of a store are equal only when they are the same object)
  and \<open>Array.splice(index, 1)\<close>, which counts a negative index from the end.
\<close>

fun indexOf :: "'a list \<Rightarrow> 'a \<Rightarrow> int" where
  "indexOf [] x = - 1"
| "indexOf (y # ys) x =
     (if y = x then 0 else (let i = indexOf ys x in if i < 0 then - 1 else i + 1))"

definition splice1 :: "'a list \<Rightarrow> int \<Rightarrow> 'a list" where
  "splice1 xs index =
     (let len = int (length xs);
          start = (if index < 0 then max (len + index) 0 else min index len)
      in take (nat start) xs @ drop (nat start + 1) xs)"

text \<open>
  The last part of \<open>remove\<close>, reached with an event name and a callback: find the handler
  of the callback, take the wrapper off the host, for a native event name splice the
  handler out of the array, delete \<open>handler.callback\<close> (on the object, which for a custom
  event name is still in the array), and delete the entry of the event name when the
  array is empty.
\<close>

definition remove_handler ::
  "host \<Rightarrow> world \<Rightarrow> elem \<Rightarrow> events_model \<Rightarrow> string \<Rightarrow> handler list \<Rightarrow> func \<Rightarrow> world"
where
  "remove_handler host w el mdl name handlers cb =
     (case find (\<lambda>h. callback h = Some cb) handlers of
        None \<Rightarrow> w
      | Some h \<Rightarrow>
          let calls =
                (if isCustomEvent name then
                   (if removeEventListener host el
                    then [RemoveEventListener el ''dataavailable'' (wid h)]
                    else [DetachEvent el ''ondataavailable'' (wid h),
                          DetachEvent el ''onfilterchange'' (wid h)])
                 else
                   (if removeEventListener host el
                    then [RemoveEventListener el name (wid h)]
                    else [DetachEvent el (''on'' @ name) (wid h)]));
              handlers1 =
                (if isCustomEvent name
                 then handlers[nat (indexOf handlers h) := h\<lparr> callback := None \<rparr>]
                 else splice1 handlers (indexOf handlers h));
              mdl1 = (if handlers1 = [] then AList.delete name mdl
                      else AList.update name handlers1 mdl)
          in w\<lparr> storage := (storage w)(el \<mapsto> mdl1), host_calls := host_calls w @ calls \<rparr>)"

text \<open>
  \<open>Array.forEach\<close>: over the keys that \<open>Object.keys\<close> returned, and over an array that
  the callback may shorten meanwhile (the indices are those of the array at the start; an
  index that is no longer in the array is skipped). \<open>None\<close>: a call did not return.
\<close>

fun forEach :: "('a \<Rightarrow> 's \<Rightarrow> 's option) \<Rightarrow> 'a list \<Rightarrow> 's \<Rightarrow> 's option" where
  "forEach f [] s = Some s"
| "forEach f (x # xs) s = (case f x s of None \<Rightarrow> None | Some s' \<Rightarrow> forEach f xs s')"

fun forEach_live ::
  "('s \<Rightarrow> 'a list) \<Rightarrow> ('a \<Rightarrow> 's \<Rightarrow> 's option) \<Rightarrow> nat list \<Rightarrow> 's \<Rightarrow> 's option"
where
  "forEach_live arr f [] s = Some s"
| "forEach_live arr f (k # ks) s =
     (if k < length (arr s) then
        (case f (arr s ! k) s of None \<Rightarrow> None | Some s' \<Rightarrow> forEach_live arr f ks s')
      else forEach_live arr f ks s)"

text \<open>
  \<open>remove(element, eventName, callback)\<close>; the last two arguments may be missing. The
  function calls itself, and with a handler whose \<open>callback\<close> is deleted it does so
  without end: the first argument bounds the depth of the calls, and \<open>None\<close> says that
  the bound was reached. A call that returns, returns its \<open>element\<close> argument; the result
  here is the world after the call.
\<close>

primrec remove ::
  "nat \<Rightarrow> host \<Rightarrow> world \<Rightarrow> elem \<Rightarrow> string option \<Rightarrow> func option \<Rightarrow> world option"
where
  "remove 0 host w el name cb = None"
| "remove (Suc fuel) host w el name cb =
     (case storage w el of
        None \<Rightarrow> Some w
      | Some mdl \<Rightarrow>
          if \<not> truthy_string name then
            forEach (\<lambda>evtName w'. remove fuel host w' el (Some evtName) None) (map fst mdl) w
          else
            (case map_of mdl (case name of Some n \<Rightarrow> n | None \<Rightarrow> []) of
               None \<Rightarrow> Some w
             | Some handlers \<Rightarrow>
                 (case cb of
                    None \<Rightarrow>
                      forEach_live (\<lambda>w'. handlers_of w' el (case name of Some n \<Rightarrow> n | None \<Rightarrow> []))
                        (\<lambda>h w'. remove fuel host w' el name (callback h))
                        [0..<length handlers] w
                  | Some c \<Rightarrow>
                      Some (remove_handler host w el mdl
                              (case name of Some n \<Rightarrow> n | None \<Rightarrow> []) handlers c))))"

subsection \<open>fire\<close>

text \<open>
  \<open>fire(element, eventName, data, bubbles = true)\<close>: the returned event (\<open>None\<close> for
  \<open>undefined\<close>) and the world after the call. \<open>data\<close> is an object or is not supplied.
\<close>

definition fire ::
  "host \<Rightarrow> world \<Rightarrow> elem \<Rightarrow> string \<Rightarrow> payload option \<Rightarrow> bool option \<Rightarrow> event option \<times> world"
where
  "fire host w el name data bubbles_arg =
     (let bubbling = (case bubbles_arg of None \<Rightarrow> True | Some b \<Rightarrow> b);
          el1 = (if el = document host \<and> createEvent host \<and> \<not> dispatchEvent host el
                 then documentElement host else el)
      in if createEvent host then
           let ev = bare_event\<lparr> type := Some ''dataavailable'', bubbles := True,
                                 cancelable := True \<rparr>;
               ev = ev\<lparr> eventName := Some name,
                        model := Some (case data of Some d \<Rightarrow> d | None \<Rightarrow> []) \<rparr>
           in (Some ev, w\<lparr> host_calls := host_calls w @ [DispatchEvent el1 ev] \<rparr>)
         else if createEventObject host then
           let evType = (if bubbling then ''ondataavailable'' else ''onfilterchange'');
               ev = bare_event\<lparr> eventType := Some evType \<rparr>;
               ev = ev\<lparr> eventName := Some name,
                        model := Some (case data of Some d \<Rightarrow> d | None \<Rightarrow> []) \<rparr>
           in (Some ev, w\<lparr> host_calls := host_calls w @ [FireEvent el1 evType ev] \<rparr>)
         else (None, w))"

subsection \<open>element and pointer\<close>

definition element :: "host \<Rightarrow> event \<Rightarrow> error + elem option" where
  "element host ev =
     (let nd = target ev;
          nd = (case currentTarget ev of
                  None \<Rightarrow> nd
                | Some ct \<Rightarrow>
                    if truthy_string (tagName (node_of host ct)) then
                      (if type ev = Some ''load'' \<or> type ev = Some ''error'' \<or>
                          (type ev = Some ''click'' \<and>
                           map_option toLowerCase (tagName (node_of host ct)) = Some ''input'' \<and>
                           type_attr (node_of host ct) = Some ''radio'')
                       then Some ct else nd)
                    else nd)
      in case nd of
           None \<Rightarrow> Inl TypeError
         | Some n \<Rightarrow>
             if nodeType (node_of host n) = Some TEXT_NODE
             then Inr (parentNode (node_of host n))
             else Inr (Some n))"

definition pointerX :: "host \<Rightarrow> event \<Rightarrow> jsnum" where
  "pointerX host ev =
     (let docEl = docElem host;
          body_scrollLeft = (case body host of Some b \<Rightarrow> scrollLeft b | None \<Rightarrow> Num 0)
      in js_or (pageX ev)
           (js_minus (js_plus (clientX ev) (js_or (scrollLeft docEl) body_scrollLeft))
                     (js_or (document_clientLeft host) (Num 0))))"

definition pointerY :: "host \<Rightarrow> event \<Rightarrow> jsnum" where
  "pointerY host ev =
     (let docEl = docElem host;
          body_scrollTop = (case body host of Some b \<Rightarrow> scrollTop b | None \<Rightarrow> Num 0)
      in js_or (pageY ev)
           (js_minus (js_plus (clientY ev) (js_or (scrollTop docEl) body_scrollTop))
                     (js_or (document_clientTop host) (Num 0))))"

datatype point = Point (x_of: jsnum) (y_of: jsnum)

definition pointer :: "host \<Rightarrow> event \<Rightarrow> point" where
  "pointer host ev = Point (pointerX host ev) (pointerY host ev)"


subsection \<open>The worlds that calls of the module reach\<close>

inductive reachable :: "host \<Rightarrow> world \<Rightarrow> bool" for host :: host where
  reachable_init: "reachable host init_world"
| reachable_add: "reachable host w \<Longrightarrow> reachable host (snd (add host w arg name cb))"
| reachable_remove:
    "reachable host w \<Longrightarrow> remove fuel host w el name cb = Some w' \<Longrightarrow> reachable host w'"
| reachable_fire: "reachable host w \<Longrightarrow> reachable host (snd (fire host w el name data b))"

text \<open>
  The invariant of the handler store: within the handler array of one event name on one
  element, no callback is registered twice.
\<close>

definition unique_callbacks :: "world \<Rightarrow> bool" where
  "unique_callbacks w = (\<forall>el name cb. registrations cb (handlers_of w el name) \<le> 1)"

subsection \<open>Example hosts\<close>

text \<open>
  A small document to run the functions on: the document (0), its root element (1), a
  link with the id \<open>navigation\<close> (2) and the text node in it (3), a radio button (4) and
  an image (5). \<open>w3c_host\<close> has the listener-based event model, \<open>legacy_host\<close> the
  attach-based one, and \<open>plain_host\<close> can construct no event.
\<close>

definition example_nodes :: "elem \<Rightarrow> node" where
  "example_nodes el =
     (if el = Elem 0 then
        \<lparr> tagName = None, type_attr = None, nodeType = Some 9, parentNode = None \<rparr>
      else if el = Elem 1 then
        \<lparr> tagName = Some ''HTML'', type_attr = None, nodeType = Some 1,
          parentNode = Some (Elem 0) \<rparr>
      else if el = Elem 2 then
        \<lparr> tagName = Some ''A'', type_attr = None, nodeType = Some 1,
          parentNode = Some (Elem 1) \<rparr>
      else if el = Elem 3 then
        \<lparr> tagName = None, type_attr = None, nodeType = Some 3, parentNode = Some (Elem 2) \<rparr>
      else if el = Elem 4 then
        \<lparr> tagName = Some ''INPUT'', type_attr = Some ''radio'', nodeType = Some 1,
          parentNode = Some (Elem 1) \<rparr>
      else if el = Elem 5 then
        \<lparr> tagName = Some ''IMG'', type_attr = None, nodeType = Some 1,
          parentNode = Some (Elem 1) \<rparr>
      else \<lparr> tagName = None, type_attr = None, nodeType = None, parentNode = None \<rparr>)"

definition w3c_host :: host where
  "w3c_host =
     \<lparr> window_attachEvent = False, createEvent = True, createEventObject = False,
       document = Elem 0, documentElement = Elem 1,
       docElem = \<lparr> scrollLeft = Num 0, scrollTop = Num 40, clientLeft = Num 0, clientTop = Num 0 \<rparr>,
       body = Some \<lparr> scrollLeft = Num 0, scrollTop = Num 0, clientLeft = Num 0, clientTop = Num 0 \<rparr>,
       document_clientLeft = Undefined, document_clientTop = Undefined,
       dispatchEvent = (\<lambda>_. True), addEventListener = (\<lambda>_. True),
       removeEventListener = (\<lambda>_. True), node_of = example_nodes,
       getElement = (\<lambda>s. if s = ''navigation'' then Some (Elem 2) else None) \<rparr>"

definition legacy_host :: host where
  "legacy_host =
     w3c_host\<lparr> window_attachEvent := True, createEvent := False, createEventObject := True,
       docElem := \<lparr> scrollLeft = Num 0, scrollTop = Num 0, clientLeft = Num 2, clientTop = Num 2 \<rparr>,
       dispatchEvent := (\<lambda>_. False), addEventListener := (\<lambda>_. False),
       removeEventListener := (\<lambda>_. False) \<rparr>"

definition plain_host :: host where
  "plain_host =
     w3c_host\<lparr> createEvent := False, dispatchEvent := (\<lambda>_. False),
       addEventListener := (\<lambda>_. False), removeEventListener := (\<lambda>_. False) \<rparr>"

section \<open>The key dispatcher: proofs\<close>

subsection \<open>Lowercase keys\<close>














subsection \<open>dispatch\<close>

lemma key_of_keydown_modifier_code:
  "type e = Some ''keydown'' \<Longrightarrow> keyCode e \<in> {Some 16, Some 17, Some 18} \<Longrightarrow>
   key_of PrintableChars e = None"
  by (auto simp: key_of_def)

lemma key_of_keydown_no_name:
  "type e = Some ''keydown'' \<Longrightarrow> \<not> truthy_string (lookup_code PrintableChars (keyCode e)) \<Longrightarrow>
   key_of PrintableChars e = None"
  by (simp add: key_of_def Let_def)

lemma key_of_keydown_name:
  "type e = Some ''keydown'' \<Longrightarrow> keyCode e \<notin> {Some 16, Some 17, Some 18} \<Longrightarrow>
   lookup_code PrintableChars (keyCode e) = Some name \<Longrightarrow> name \<noteq> [] \<Longrightarrow>
   key_of PrintableChars e = Some (modifier_prefix e, Some name)"
  by (simp add: key_of_def Let_def truthy_string_def)



lemma dispatch_no_key:
  "key_of PrintableChars e = None \<Longrightarrow>
   dispatch this PrintableChars window_event (Some e) = Inr Returned_undefined"
  by (simp add: dispatch_def)

lemma dispatch_key:
  "key_of PrintableChars e = Some (p, Some name) \<Longrightarrow>
   dispatch this PrintableChars window_event (Some e) =
     (case kmap this (p @ name) of
        None \<Rightarrow> Inr Returned_undefined
      | Some func \<Rightarrow>
          Inr (Invoked func (case target e of Some t \<Rightarrow> Some t | None \<Rightarrow> srcElement e)
                (p @ name) e
                [if stopPropagation e then Call_stopPropagation else Set_cancelBubble,
                 if preventDefault e then Call_preventDefault else Set_returnValue]))"
  unfolding dispatch_def by (simp add: composite_def split: option.splits)


text \<open>
  C8. On a key-down event, \<open>dispatch\<close> returns at once for the key codes 16, 17 and 18
  and for a code that has no (non-empty) name in the table. When the code has a name, the
  prefix is \<open>alt_\<close>, \<open>ctrl_\<close>, \<open>shift_\<close> for the modifiers that are down, in that order, and
  the handler bound to prefix and name, if any, is called.
\<close>

theorem keydown_dispatch:
  assumes "type e = Some ''keydown''"
  shows "(keyCode e \<in> {Some 16, Some 17, Some 18} \<longrightarrow>
            dispatch this PrintableChars window_event (Some e) = Inr Returned_undefined) \<and>
         (\<not> truthy_string (lookup_code PrintableChars (keyCode e)) \<longrightarrow>
            dispatch this PrintableChars window_event (Some e) = Inr Returned_undefined) \<and>
         (keyCode e \<notin> {Some 16, Some 17, Some 18} \<and>
          lookup_code PrintableChars (keyCode e) = Some name \<and> name \<noteq> [] \<longrightarrow>
            key_of PrintableChars e = Some (modifier_prefix e, Some name) \<and>
            modifier_prefix e =
              (if altKey e then ''alt_'' else '''') @ (if ctrlKey e then ''ctrl_'' else '''') @
              (if shiftKey e then ''shift_'' else '''') \<and>
            dispatch this PrintableChars window_event (Some e) =
              (case kmap this (modifier_prefix e @ name) of
                 None \<Rightarrow> Inr Returned_undefined
               | Some func \<Rightarrow>
                   Inr (Invoked func (case target e of Some t \<Rightarrow> Some t | None \<Rightarrow> srcElement e)
                         (modifier_prefix e @ name) e
                         [if stopPropagation e then Call_stopPropagation else Set_cancelBubble,
                          if preventDefault e then Call_preventDefault else Set_returnValue])))"
proof -
  have 1: "keyCode e \<in> {Some 16, Some 17, Some 18} \<longrightarrow>
            dispatch this PrintableChars window_event (Some e) = Inr Returned_undefined"
    using key_of_keydown_modifier_code [OF assms] dispatch_no_key by blast
  have 2: "\<not> truthy_string (lookup_code PrintableChars (keyCode e)) \<longrightarrow>
            dispatch this PrintableChars window_event (Some e) = Inr Returned_undefined"
    using key_of_keydown_no_name [OF assms] dispatch_no_key by blast
  have 3: "modifier_prefix e =
              (if altKey e then ''alt_'' else '''') @ (if ctrlKey e then ''ctrl_'' else '''') @
              (if shiftKey e then ''shift_'' else '''')"
    by (rule modifier_prefix_def)
  have 4: "keyCode e \<notin> {Some 16, Some 17, Some 18} \<and>
          lookup_code PrintableChars (keyCode e) = Some name \<and> name \<noteq> [] \<longrightarrow>
            key_of PrintableChars e = Some (modifier_prefix e, Some name)"
    using key_of_keydown_name [OF assms] by blast
  have 5: "key_of PrintableChars e = Some (modifier_prefix e, Some name) \<longrightarrow>
            dispatch this PrintableChars window_event (Some e) =
              (case kmap this (modifier_prefix e @ name) of
                 None \<Rightarrow> Inr Returned_undefined
               | Some func \<Rightarrow>
                   Inr (Invoked func (case target e of Some t \<Rightarrow> Some t | None \<Rightarrow> srcElement e)
                         (modifier_prefix e @ name) e
                         [if stopPropagation e then Call_stopPropagation else Set_cancelBubble,
                          if preventDefault e then Call_preventDefault else Set_returnValue]))"
    using dispatch_key by blast
  from 1 2 3 4 5 show ?thesis by blast
qed

theorem keydown_dispatch_witness:
  "dispatch \<lparr> kmap = [''alt_ctrl_shift_x'' \<mapsto> Func 1] \<rparr> [88 \<mapsto> ''x''] None
     (Some (bare_event\<lparr> type := Some ''keydown'', keyCode := Some 88,
                          altKey := True, ctrlKey := True, shiftKey := True \<rparr>)) =
   Inr (Invoked (Func 1) None ''alt_ctrl_shift_x''
         (bare_event\<lparr> type := Some ''keydown'', keyCode := Some 88,
                       altKey := True, ctrlKey := True, shiftKey := True \<rparr>)
         [Set_cancelBubble, Set_returnValue]) \<and>
   dispatch \<lparr> kmap = [''shift_x'' \<mapsto> Func 1] \<rparr> [88 \<mapsto> ''x''] None
     (Some (bare_event\<lparr> type := Some ''keydown'', keyCode := Some 16, shiftKey := True \<rparr>)) =
   Inr Returned_undefined \<and>
   dispatch \<lparr> kmap = [''ctrl_a'' \<mapsto> Func 1] \<rparr> [88 \<mapsto> ''x''] None
     (Some (bare_event\<lparr> type := Some ''keydown'', keyCode := Some 65, ctrlKey := True \<rparr>)) =
   Inr Returned_undefined"
proof -
  let ?e1 = "bare_event\<lparr> type := Some ''keydown'', keyCode := Some 88,
                          altKey := True, ctrlKey := True, shiftKey := True \<rparr>"
  let ?e2 = "bare_event\<lparr> type := Some ''keydown'', keyCode := Some 16, shiftKey := True \<rparr>"
  let ?e3 = "bare_event\<lparr> type := Some ''keydown'', keyCode := Some 65, ctrlKey := True \<rparr>"
  have t1: "type ?e1 = Some ''keydown''" and t2: "type ?e2 = Some ''keydown''"
    and t3: "type ?e3 = Some ''keydown''" by simp_all
  have p1: "modifier_prefix ?e1 @ ''x'' = ''alt_ctrl_shift_x''"
    by (simp add: modifier_prefix_def)
  have f1: "target ?e1 = None" "srcElement ?e1 = None" "\<not> stopPropagation ?e1"
    "\<not> preventDefault ?e1"
    by (simp_all add: bare_event_def)
  have a: "dispatch \<lparr> kmap = [''alt_ctrl_shift_x'' \<mapsto> Func 1] \<rparr> [88 \<mapsto> ''x''] None (Some ?e1) =
      Inr (Invoked (Func 1) None ''alt_ctrl_shift_x'' ?e1 [Set_cancelBubble, Set_returnValue])"
    using keydown_dispatch [OF t1, where this = "\<lparr> kmap = [''alt_ctrl_shift_x'' \<mapsto> Func 1] \<rparr>"
            and PrintableChars = "[88 \<mapsto> ''x'']" and window_event = None and name = "''x''"]
    by (simp add: lookup_code_def p1 f1)
  have b: "dispatch \<lparr> kmap = [''shift_x'' \<mapsto> Func 1] \<rparr> [88 \<mapsto> ''x''] None (Some ?e2) =
      Inr Returned_undefined"
    using keydown_dispatch [OF t2, where this = "\<lparr> kmap = [''shift_x'' \<mapsto> Func 1] \<rparr>"
            and PrintableChars = "[88 \<mapsto> ''x'']" and window_event = None and name = "''x''"]
    by simp
  have c: "dispatch \<lparr> kmap = [''ctrl_a'' \<mapsto> Func 1] \<rparr> [88 \<mapsto> ''x''] None (Some ?e3) =
      Inr Returned_undefined"
    using keydown_dispatch [OF t3, where this = "\<lparr> kmap = [''ctrl_a'' \<mapsto> Func 1] \<rparr>"
            and PrintableChars = "[88 \<mapsto> ''x'']" and window_event = None and name = "''x''"]
    by (simp add: lookup_code_def truthy_string_def)
  from a b c show ?thesis by (intro conjI)
qed



section \<open>The event registry: proofs\<close>

subsection \<open>add with an element that does not resolve\<close>

text \<open>
  C7. When the element argument of \<open>add\<close> is a string that the element lookup does not
  resolve, \<open>add\<close> throws its error and the world is as before: no handler is created and
  the host is not called. When the lookup finds an element, \<open>add\<close> returns that element.
\<close>

theorem add_selector:
  "(getElement host s = None \<longrightarrow>
      add host w (Selector s) name cb =
        (Inl (Error (''Invalid element provided for event '' @ [CHR 0x22] @ name @ [CHR 0x22])),
         w)) \<and>
   (getElement host s = Some el \<longrightarrow> fst (add host w (Selector s) name cb) = Inr el)"
  by (simp add: add_def resolve_def split: prod.splits option.splits)

theorem add_selector_witness:
  "add w3c_host init_world (Selector ''sidebar'') ''click'' (Func 1) =
     (Inl (Error (''Invalid element provided for event '' @ [CHR 0x22] @ ''click'' @ [CHR 0x22])),
      init_world) \<and>
   fst (add w3c_host init_world (Selector ''navigation'') ''click'' (Func 1)) = Inr (Elem 2)"
proof -
  have n: "getElement w3c_host ''sidebar'' = None"
    and y: "getElement w3c_host ''navigation'' = Some (Elem 2)"
    by (simp_all add: w3c_host_def)
  from add_selector [where host = w3c_host and s = "''sidebar''" and w = init_world
         and name = "''click''" and cb = "Func 1"] n
  have a: "add w3c_host init_world (Selector ''sidebar'') ''click'' (Func 1) =
     (Inl (Error (''Invalid element provided for event '' @ [CHR 0x22] @ ''click'' @ [CHR 0x22])),
      init_world)"
    by simp
  from add_selector [where host = w3c_host and s = "''navigation''" and el = "Elem 2"
         and w = init_world and name = "''click''" and cb = "Func 1"] y
  have b: "fst (add w3c_host init_world (Selector ''navigation'') ''click'' (Func 1)) =
      Inr (Elem 2)"
    by simp
  from a b show ?thesis by (intro conjI)
qed

subsection \<open>fire\<close>

text \<open>
  C6. On a host with neither \<open>createEvent\<close> nor \<open>createEventObject\<close>, \<open>fire\<close> returns
  \<open>undefined\<close>, dispatches nothing and leaves the world as it is. On any other host it
  returns the event it constructed and dispatched on the host, whose \<open>eventName\<close> is the
  given name and whose \<open>model\<close> is the given data, or an empty object when no data is
  supplied.
\<close>

theorem fire_result:
  "(\<not> createEvent host \<and> \<not> createEventObject host \<longrightarrow>
      fire host w el name data b = (None, w)) \<and>
   (createEvent host \<or> createEventObject host \<longrightarrow>
      (\<exists>ev w'. fire host w el name data b = (Some ev, w') \<and>
         eventName ev = Some name \<and>
         model ev = Some (case data of Some d \<Rightarrow> d | None \<Rightarrow> []) \<and>
         storage w' = storage w \<and>
         (\<exists>el' c. host_calls w' = host_calls w @ [c] \<and>
            (c = DispatchEvent el' ev \<or>
             c = FireEvent el' (if b = Some False then ''onfilterchange'' else ''ondataavailable'') ev))))"
proof (intro conjI impI)
  assume "\<not> createEvent host \<and> \<not> createEventObject host"
  then show "fire host w el name data b = (None, w)"
    by (simp add: fire_def)
next
  assume h: "createEvent host \<or> createEventObject host"
  show "\<exists>ev w'. fire host w el name data b = (Some ev, w') \<and>
         eventName ev = Some name \<and>
         model ev = Some (case data of Some d \<Rightarrow> d | None \<Rightarrow> []) \<and>
         storage w' = storage w \<and>
         (\<exists>el' c. host_calls w' = host_calls w @ [c] \<and>
            (c = DispatchEvent el' ev \<or>
             c = FireEvent el' (if b = Some False then ''onfilterchange'' else ''ondataavailable'') ev))"
  proof (cases "createEvent host")
    case True
    then show ?thesis by (simp add: fire_def Let_def)
  next
    case False
    with h have "createEventObject host" by simp
    with False show ?thesis
      by (cases b) (simp_all add: fire_def Let_def)
  qed
qed


theorem fire_result_witness:
  "fire plain_host init_world (Elem 2) ''login:request'' (Some [(''username'', ''hsimpson'')]) None =
     (None, init_world) \<and>
   (\<exists>ev w'. fire w3c_host init_world (Elem 2) ''login:request''
               (Some [(''username'', ''hsimpson'')]) None = (Some ev, w') \<and>
      eventName ev = Some ''login:request'' \<and> model ev = Some [(''username'', ''hsimpson'')]) \<and>
   (\<exists>ev w'. fire legacy_host init_world (Elem 2) ''login:request'' None (Some False) =
               (Some ev, w') \<and>
      eventName ev = Some ''login:request'' \<and> model ev = Some [])"
proof -
  have p: "\<not> createEvent plain_host \<and> \<not> createEventObject plain_host"
    by (simp add: plain_host_def w3c_host_def)
  have m: "createEvent w3c_host \<or> createEventObject w3c_host"
    by (simp add: w3c_host_def)
  have l: "createEvent legacy_host \<or> createEventObject legacy_host"
    by (simp add: legacy_host_def)
  note i1 = fire_result [where host = plain_host and w = init_world and el = "Elem 2"
         and name = "''login:request''" and data = "Some [(''username'', ''hsimpson'')]"
         and b = None]
  note i2 = fire_result [where host = w3c_host and w = init_world and el = "Elem 2"
         and name = "''login:request''" and data = "Some [(''username'', ''hsimpson'')]"
         and b = None]
  note i3 = fire_result [where host = legacy_host and w = init_world and el = "Elem 2"
         and name = "''login:request''" and data = None and b = "Some False"]
  from conjunct1 [OF i1, THEN mp, OF p]
  have a: "fire plain_host init_world (Elem 2) ''login:request''
             (Some [(''username'', ''hsimpson'')]) None = (None, init_world)" .
  from conjunct2 [OF i2, THEN mp, OF m] obtain ev w'
    where "fire w3c_host init_world (Elem 2) ''login:request''
               (Some [(''username'', ''hsimpson'')]) None = (Some ev, w')"
      and "eventName ev = Some ''login:request''"
      and "model ev = Some [(''username'', ''hsimpson'')]"
    by auto
  then have b: "\<exists>ev w'. fire w3c_host init_world (Elem 2) ''login:request''
               (Some [(''username'', ''hsimpson'')]) None = (Some ev, w') \<and>
      eventName ev = Some ''login:request'' \<and> model ev = Some [(''username'', ''hsimpson'')]"
    by blast
  from conjunct2 [OF i3, THEN mp, OF l] obtain ev w'
    where "fire legacy_host init_world (Elem 2) ''login:request'' None (Some False) =
               (Some ev, w')"
      and "eventName ev = Some ''login:request''"
      and "model ev = Some []"
    by auto
  then have c: "\<exists>ev w'. fire legacy_host init_world (Elem 2) ''login:request'' None (Some False) =
               (Some ev, w') \<and>
      eventName ev = Some ''login:request'' \<and> model ev = Some []"
    by blast
  from a b c show ?thesis by (intro conjI)
qed

subsection \<open>pointer\<close>

lemma js_or_truthy: "truthy a \<Longrightarrow> js_or a b = a"
  by (simp add: js_or_def)

lemma js_or_falsy: "\<not> truthy a \<Longrightarrow> js_or a b = b"
  by (simp add: js_or_def)

lemma pointerX_page: "truthy (pageX ev) \<Longrightarrow> pointerX host ev = pageX ev"
  by (simp add: pointerX_def Let_def js_or_truthy)

lemma pointerY_page: "truthy (pageY ev) \<Longrightarrow> pointerY host ev = pageY ev"
  by (simp add: pointerY_def Let_def js_or_truthy)

lemma pointerX_fallback:
  assumes "\<not> truthy (pageX ev)" and "clientX ev = Num cx"
    and "js_or (scrollLeft (docElem host))
           (case body host of Some b \<Rightarrow> scrollLeft b | None \<Rightarrow> Num 0) = Num sx"
    and "js_or (document_clientLeft host) (Num 0) = Num ox"
  shows "pointerX host ev = Num (cx + sx - ox)"
  using assms by (simp add: pointerX_def Let_def js_or_falsy js_plus_def js_minus_def)

lemma pointerY_fallback:
  assumes "\<not> truthy (pageY ev)" and "clientY ev = Num cy"
    and "js_or (scrollTop (docElem host))
           (case body host of Some b \<Rightarrow> scrollTop b | None \<Rightarrow> Num 0) = Num sy"
    and "js_or (document_clientTop host) (Num 0) = Num oy"
  shows "pointerY host ev = Num (cy + sy - oy)"
  using assms by (simp add: pointerY_def Let_def js_or_falsy js_plus_def js_minus_def)

text \<open>
  C5, as the claim states it, fails: a page coordinate that is present and zero is
  passed over, and the fallback is returned. Here the event has \<open>pageX = 0\<close>,
  \<open>pageY = 0\<close>, \<open>clientX = 5\<close> and \<open>clientY = 7\<close>, and the root element is scrolled down by
  40: \<open>pointer\<close> returns \<open>(5, 47)\<close>.
\<close>

theorem pointer_page_zero_counterexample:
  "pageX (bare_event\<lparr> clientX := Num 5, clientY := Num 7, pageX := Num 0, pageY := Num 0 \<rparr>) = Num 0 \<and>
   pageY (bare_event\<lparr> clientX := Num 5, clientY := Num 7, pageX := Num 0, pageY := Num 0 \<rparr>) = Num 0 \<and>
   pointer w3c_host
     (bare_event\<lparr> clientX := Num 5, clientY := Num 7, pageX := Num 0, pageY := Num 0 \<rparr>) =
   Point (Num 5) (Num 47) \<and>
   pointer w3c_host
     (bare_event\<lparr> clientX := Num 5, clientY := Num 7, pageX := Num 0, pageY := Num 0 \<rparr>) \<noteq>
   Point (Num 0) (Num 0)"
  by (simp add: pointer_def pointerX_def pointerY_def Let_def js_or_def js_plus_def js_minus_def
        w3c_host_def)

text \<open>
  C5, amended. \<open>pointer\<close> returns the page coordinate of the event when that is present
  and not zero. When it is absent or zero, \<open>pointer\<close> returns the client coordinate, plus
  the scroll offset of the root element or, when that is absent or zero, of the body (0
  when there is no body), minus the client offset of the document (0 when that is absent
  or zero).
\<close>

theorem pointer_page_or_fallback:
  "(truthy (pageX ev) \<longrightarrow> x_of (pointer host ev) = pageX ev) \<and>
   (truthy (pageY ev) \<longrightarrow> y_of (pointer host ev) = pageY ev) \<and>
   (\<not> truthy (pageX ev) \<and> clientX ev = Num cx \<and>
    js_or (scrollLeft (docElem host))
      (case body host of Some b \<Rightarrow> scrollLeft b | None \<Rightarrow> Num 0) = Num sx \<and>
    js_or (document_clientLeft host) (Num 0) = Num ox \<longrightarrow>
      x_of (pointer host ev) = Num (cx + sx - ox)) \<and>
   (\<not> truthy (pageY ev) \<and> clientY ev = Num cy \<and>
    js_or (scrollTop (docElem host))
      (case body host of Some b \<Rightarrow> scrollTop b | None \<Rightarrow> Num 0) = Num sy \<and>
    js_or (document_clientTop host) (Num 0) = Num oy \<longrightarrow>
      y_of (pointer host ev) = Num (cy + sy - oy))"
  by (simp add: pointer_def pointerX_page pointerY_page pointerX_fallback pointerY_fallback)

theorem pointer_page_or_fallback_witness:
  "pointer w3c_host (bare_event\<lparr> clientX := Num 5, clientY := Num 7,
                                  pageX := Num 105, pageY := Num 207 \<rparr>) =
     Point (Num 105) (Num 207) \<and>
   pointer (w3c_host\<lparr> body := None \<rparr>) (bare_event\<lparr> clientX := Num 5, clientY := Num 7 \<rparr>) =
     Point (Num 5) (Num 47)"
proof -
  let ?e1 = "bare_event\<lparr> clientX := Num 5, clientY := Num 7, pageX := Num 105, pageY := Num 207 \<rparr>"
  let ?e2 = "bare_event\<lparr> clientX := Num 5, clientY := Num 7 \<rparr>"
  let ?h = "w3c_host\<lparr> body := None \<rparr>"
  have t: "truthy (pageX ?e1)" "truthy (pageY ?e1)" by simp_all
  have f: "\<not> truthy (pageX ?e2)" "\<not> truthy (pageY ?e2)" "clientX ?e2 = Num 5"
    "clientY ?e2 = Num 7"
    by (simp_all add: bare_event_def)
  have s: "js_or (scrollLeft (docElem ?h))
             (case body ?h of Some b \<Rightarrow> scrollLeft b | None \<Rightarrow> Num 0) = Num 0"
    "js_or (document_clientLeft ?h) (Num 0) = Num 0"
    "js_or (scrollTop (docElem ?h))
             (case body ?h of Some b \<Rightarrow> scrollTop b | None \<Rightarrow> Num 0) = Num 40"
    "js_or (document_clientTop ?h) (Num 0) = Num 0"
    by (simp_all add: w3c_host_def js_or_def)
  note i1 = pointer_page_or_fallback [where ev = ?e1 and host = w3c_host]
  note i2 = pointer_page_or_fallback [where ev = ?e2 and host = ?h and cx = 5 and sx = 0
              and ox = 0 and cy = 7 and sy = 40 and oy = 0]
  have x1: "x_of (pointer w3c_host ?e1) = Num 105" using i1 t by simp
  have y1: "y_of (pointer w3c_host ?e1) = Num 207" using i1 t by simp
  have x2: "x_of (pointer ?h ?e2) = Num 5" using i2 f s by simp
  have y2: "y_of (pointer ?h ?e2) = Num 47" using i2 f s by simp
  have a: "pointer w3c_host ?e1 = Point (Num 105) (Num 207)"
    using x1 y1 by (cases "pointer w3c_host ?e1") simp
  have b: "pointer ?h ?e2 = Point (Num 5) (Num 47)"
    using x2 y2 by (cases "pointer ?h ?e2") simp
  from a b show ?thesis by (intro conjI)
qed

subsection \<open>element\<close>

lemma element_currentTarget:
  assumes "currentTarget ev = Some ct" and "tagName (node_of host ct) = Some tag" and "tag \<noteq> []"
    and "type ev = Some ''load'' \<or> type ev = Some ''error'' \<or>
         (type ev = Some ''click'' \<and> toLowerCase tag = ''input'' \<and>
          type_attr (node_of host ct) = Some ''radio'')"
  shows "element host ev =
           (if nodeType (node_of host ct) = Some TEXT_NODE
            then Inr (parentNode (node_of host ct)) else Inr (Some ct))"
  using assms by (auto simp: element_def Let_def truthy_string_def)

lemma element_target:
  assumes "\<not> (\<exists>ct tag. currentTarget ev = Some ct \<and> tagName (node_of host ct) = Some tag \<and>
              tag \<noteq> [] \<and>
              (type ev = Some ''load'' \<or> type ev = Some ''error'' \<or>
               (type ev = Some ''click'' \<and> toLowerCase tag = ''input'' \<and>
                type_attr (node_of host ct) = Some ''radio'')))"
    and "target ev = Some n"
  shows "element host ev =
           (if nodeType (node_of host n) = Some TEXT_NODE
            then Inr (parentNode (node_of host n)) else Inr (Some n))"
proof (cases "currentTarget ev")
  case None
  with assms(2) show ?thesis by (simp add: element_def Let_def)
next
  case (Some ct)
  show ?thesis
  proof (cases "tagName (node_of host ct)")
    case None
    with Some assms(2) show ?thesis by (simp add: element_def Let_def truthy_string_def)
  next
    case tag: (Some tag)
    show ?thesis
    proof (cases "tag = []")
      case True
      with Some tag assms(2) show ?thesis by (simp add: element_def Let_def truthy_string_def)
    next
      case False
      with assms(1) Some tag
      have "\<not> (type ev = Some ''load'' \<or> type ev = Some ''error'' \<or>
               (type ev = Some ''click'' \<and> toLowerCase tag = ''input'' \<and>
                type_attr (node_of host ct) = Some ''radio''))"
        by blast
      with Some tag False assms(2) show ?thesis
        by (auto simp: element_def Let_def truthy_string_def)
    qed
  qed
qed

text \<open>
  C9, as the claim states it, fails: the current target is used only when it has a tag
  name. Here a \<open>load\<close> event of the image (5) reaches a listener on the document (0),
  which has no tag name, and \<open>element\<close> returns the image, not the document.
\<close>

theorem element_load_counterexample:
  "type (bare_event\<lparr> type := Some ''load'', target := Some (Elem 5),
                      currentTarget := Some (Elem 0) \<rparr>) = Some ''load'' \<and>
   currentTarget (bare_event\<lparr> type := Some ''load'', target := Some (Elem 5),
                      currentTarget := Some (Elem 0) \<rparr>) = Some (Elem 0) \<and>
   element w3c_host (bare_event\<lparr> type := Some ''load'', target := Some (Elem 5),
                      currentTarget := Some (Elem 0) \<rparr>) = Inr (Some (Elem 5)) \<and>
   element w3c_host (bare_event\<lparr> type := Some ''load'', target := Some (Elem 5),
                      currentTarget := Some (Elem 0) \<rparr>) \<noteq> Inr (Some (Elem 0))"
  by (simp add: element_def Let_def truthy_string_def w3c_host_def example_nodes_def TEXT_NODE_def)

text \<open>
  C9, amended. For an event whose current target is there and has a non-empty tag name,
  and whose type is \<open>load\<close> or \<open>error\<close>, or \<open>click\<close> with a radio input as current target,
  \<open>element\<close> resolves the current target and not the target. For every other event it
  resolves the target. When the resolved node is a text node, \<open>element\<close> returns the
  parent of that node, otherwise the node itself.
\<close>

theorem element_resolution:
  "(currentTarget ev = Some ct \<and> tagName (node_of host ct) = Some tag \<and> tag \<noteq> [] \<and>
    (type ev = Some ''load'' \<or> type ev = Some ''error'' \<or>
     (type ev = Some ''click'' \<and> toLowerCase tag = ''input'' \<and>
      type_attr (node_of host ct) = Some ''radio'')) \<longrightarrow>
      element host ev =
        (if nodeType (node_of host ct) = Some TEXT_NODE
         then Inr (parentNode (node_of host ct)) else Inr (Some ct))) \<and>
   (\<not> (\<exists>ct tag. currentTarget ev = Some ct \<and> tagName (node_of host ct) = Some tag \<and>
          tag \<noteq> [] \<and>
          (type ev = Some ''load'' \<or> type ev = Some ''error'' \<or>
           (type ev = Some ''click'' \<and> toLowerCase tag = ''input'' \<and>
            type_attr (node_of host ct) = Some ''radio''))) \<and>
    target ev = Some n \<longrightarrow>
      element host ev =
        (if nodeType (node_of host n) = Some TEXT_NODE
         then Inr (parentNode (node_of host n)) else Inr (Some n)))"
  using element_currentTarget [of ev ct host tag] element_target [of ev host n] by blast

lemma INPUT_lower: "toLowerCase ''INPUT'' = ''input''"
  by code_simp

theorem element_resolution_witness:
  "element w3c_host (bare_event\<lparr> type := Some ''load'', target := Some (Elem 3),
                                   currentTarget := Some (Elem 5) \<rparr>) = Inr (Some (Elem 5)) \<and>
   element w3c_host (bare_event\<lparr> type := Some ''click'', target := Some (Elem 3),
                                   currentTarget := Some (Elem 4) \<rparr>) = Inr (Some (Elem 4)) \<and>
   element w3c_host (bare_event\<lparr> type := Some ''click'', target := Some (Elem 3) \<rparr>) =
     Inr (Some (Elem 2))"
proof -
  let ?e1 = "bare_event\<lparr> type := Some ''load'', target := Some (Elem 3),
                          currentTarget := Some (Elem 5) \<rparr>"
  let ?e2 = "bare_event\<lparr> type := Some ''click'', target := Some (Elem 3),
                          currentTarget := Some (Elem 4) \<rparr>"
  let ?e3 = "bare_event\<lparr> type := Some ''click'', target := Some (Elem 3) \<rparr>"
  have n: "node_of w3c_host (Elem 5) =
             \<lparr> tagName = Some ''IMG'', type_attr = None, nodeType = Some 1,
               parentNode = Some (Elem 1) \<rparr>"
    "node_of w3c_host (Elem 4) =
             \<lparr> tagName = Some ''INPUT'', type_attr = Some ''radio'', nodeType = Some 1,
               parentNode = Some (Elem 1) \<rparr>"
    "node_of w3c_host (Elem 3) =
             \<lparr> tagName = None, type_attr = None, nodeType = Some 3, parentNode = Some (Elem 2) \<rparr>"
    by (simp_all add: w3c_host_def example_nodes_def)
  have c3: "currentTarget ?e3 = None" by (simp add: bare_event_def)
  have a: "element w3c_host ?e1 = Inr (Some (Elem 5))"
    using element_resolution [where ev = ?e1 and host = w3c_host and ct = "Elem 5"
            and tag = "''IMG''"]
    by (simp add: n TEXT_NODE_def)
  have b: "element w3c_host ?e2 = Inr (Some (Elem 4))"
    using element_resolution [where ev = ?e2 and host = w3c_host and ct = "Elem 4"
            and tag = "''INPUT''"]
    by (simp add: n TEXT_NODE_def INPUT_lower)
  have c: "element w3c_host ?e3 = Inr (Some (Elem 2))"
    using element_resolution [where ev = ?e3 and host = w3c_host and n = "Elem 3"]
    by (simp add: n c3 TEXT_NODE_def)
  from a b c show ?thesis by (intro conjI)
qed

subsection \<open>createHandler\<close>

lemma handlers_of_storage_upd:
  "handlers_of (w\<lparr> storage := (storage w)(el \<mapsto> mdl) \<rparr>) el name =
     (case map_of mdl name of None \<Rightarrow> [] | Some hs \<Rightarrow> hs)"
  by (simp add: handlers_of_def model_of_def)

lemma createHandler_registered:
  assumes "Some cb \<in> set (map callback (handlers_of w el name))"
  shows "createHandler w el name cb = (None, w)"
proof (cases "storage w el")
  case None
  with assms show ?thesis by (simp add: handlers_of_def model_of_def)
next
  case (Some mdl)
  show ?thesis
  proof (cases "map_of mdl name")
    case None
    with Some assms show ?thesis by (simp add: handlers_of_def model_of_def)
  next
    case (Some hs)
    with \<open>storage w el = Some mdl\<close> assms show ?thesis
      by (simp add: createHandler_def Let_def model_of_def handlers_of_def)
  qed
qed

lemma createHandler_new:
  assumes "Some cb \<notin> set (map callback (handlers_of w el name))"
  shows "\<exists>w'. createHandler w el name cb =
           (Some \<lparr> wid = next_wid w, h_element = el, h_eventName = name, h_callback = cb,
                   h_body = (if isCustomEvent name then Custom_wrapper else Native_wrapper),
                   callback = Some cb \<rparr>, w') \<and>
          handlers_of w' el name = handlers_of w el name @
            [\<lparr> wid = next_wid w, h_element = el, h_eventName = name, h_callback = cb,
               h_body = (if isCustomEvent name then Custom_wrapper else Native_wrapper),
               callback = Some cb \<rparr>] \<and>
          host_calls w' = host_calls w \<and> next_wid w' = Suc (next_wid w)"
proof (cases "storage w el")
  case None
  then show ?thesis
    using assms
    by (simp add: createHandler_def Let_def model_of_def handlers_of_def update_conv')
next
  case (Some mdl)
  show ?thesis
  proof (cases "map_of mdl name")
    case None
    with Some show ?thesis
      using assms
      by (simp add: createHandler_def Let_def model_of_def handlers_of_def update_conv')
  next
    case (Some hs)
    with \<open>storage w el = Some mdl\<close> show ?thesis
      using assms
      by (simp add: createHandler_def Let_def model_of_def handlers_of_def update_conv')
  qed
qed

lemma call_custom_handler:
  assumes "h_body h = Custom_wrapper"
  shows "call_handler host h ev =
           (if eventName ev = Some (h_eventName h)
            then Called (h_callback h) (h_element h) (normalize host ev (h_element h))
            else Returned_false)"
  using assms by (simp add: call_handler_def)

lemma call_native_handler:
  assumes "h_body h = Native_wrapper"
  shows "call_handler host h ev =
           Called (h_callback h) (h_element h) (normalize host ev (h_element h))"
  using assms by (simp add: call_handler_def)

lemma fire_eventName:
  "fire host w el name data b = (Some ev, w') \<Longrightarrow> eventName ev = Some name"
  by (auto simp: fire_def Let_def split: if_splits)

lemma add_unregistered:
  assumes "resolve host arg = Some el"
    and "Some cb \<notin> set (map callback (handlers_of w el name))"
  shows "\<exists>w'. add host w arg name cb = (Inr el, w') \<and>
          handlers_of w' el name = handlers_of w el name @
            [\<lparr> wid = next_wid w, h_element = el, h_eventName = name, h_callback = cb,
               h_body = (if isCustomEvent name then Custom_wrapper else Native_wrapper),
               callback = Some cb \<rparr>]"
proof -
  let ?h = "\<lparr> wid = next_wid w, h_element = el, h_eventName = name, h_callback = cb,
               h_body = (if isCustomEvent name then Custom_wrapper else Native_wrapper),
               callback = Some cb \<rparr>"
  from createHandler_new [OF assms(2)] obtain w1
    where c: "createHandler w el name cb = (Some ?h, w1)"
      and hs: "handlers_of w1 el name = handlers_of w el name @ [?h]"
    by blast
  let ?calls = "(if isCustomEvent name then
                     (if addEventListener host el
                      then [AddEventListener el ''dataavailable'' (wid ?h)]
                      else [AttachEvent el ''ondataavailable'' (wid ?h),
                            AttachEvent el ''onfilterchange'' (wid ?h)])
                   else
                     (if addEventListener host el
                      then [AddEventListener el name (wid ?h)]
                      else [AttachEvent el (''on'' @ name) (wid ?h)]))"
  let ?w' = "w1\<lparr> host_calls := host_calls w1 @ ?calls \<rparr>"
  have a: "add host w arg name cb = (Inr el, ?w')"
    using assms(1) c by (simp add: add_def)
  have hs': "handlers_of ?w' el name = handlers_of w el name @ [?h]"
    using hs by (simp add: handlers_of_def model_of_def)
  from a hs' show ?thesis by blast
qed

text \<open>
  C3. The wrapper that \<open>add\<close> builds for a callback that is not yet registered is the new
  last handler of the event name. Under a custom event name (one with a \<open>:\<close>), the wrapper
  calls the callback on a raw event exactly when the event carries an \<open>eventName\<close> equal
  to the registered name, and returns without calling it when the \<open>eventName\<close> is absent
  or differs; so of the events that \<open>fire\<close> constructs it answers those fired under its
  own name. Under a native event name the wrapper normalizes the event and calls the
  callback, whatever the event carries.
\<close>

theorem add_wrapper:
  assumes "resolve host arg = Some el"
    and "Some cb \<notin> set (map callback (handlers_of w el name))"
  shows "\<exists>h w'. add host w arg name cb = (Inr el, w') \<and>
           handlers_of w' el name = handlers_of w el name @ [h] \<and>
           callback h = Some cb \<and>
           (isCustomEvent name \<longrightarrow>
              (\<forall>ev. (eventName ev = Some name \<longrightarrow>
                       call_handler host h ev = Called cb el (normalize host ev el)) \<and>
                    (eventName ev \<noteq> Some name \<longrightarrow> call_handler host h ev = Returned_false)) \<and>
              (\<forall>w1 el1 fired data b ev w2.
                 fire host w1 el1 fired data b = (Some ev, w2) \<longrightarrow>
                   (call_handler host h ev = Called cb el (normalize host ev el)) =
                   (fired = name))) \<and>
           (\<not> isCustomEvent name \<longrightarrow>
              (\<forall>ev. call_handler host h ev = Called cb el (normalize host ev el)))"
proof -
  let ?h = "\<lparr> wid = next_wid w, h_element = el, h_eventName = name, h_callback = cb,
               h_body = (if isCustomEvent name then Custom_wrapper else Native_wrapper),
               callback = Some cb \<rparr>"
  from add_unregistered [OF assms] obtain w'
    where a: "add host w arg name cb = (Inr el, w')"
      and hs': "handlers_of w' el name = handlers_of w el name @ [?h]"
    by blast
  have cust: "call_handler host ?h ev =
                (if eventName ev = Some name then Called cb el (normalize host ev el)
                 else Returned_false)" if "isCustomEvent name" for ev
    using that call_custom_handler [of ?h host ev] by simp
  have nat: "call_handler host ?h ev = Called cb el (normalize host ev el)"
    if "\<not> isCustomEvent name" for ev
    using that call_native_handler [of ?h host ev] by simp
  have fired: "(call_handler host ?h ev = Called cb el (normalize host ev el)) = (fired = name)"
    if "isCustomEvent name" "fire host w1 el1 fired data b = (Some ev, w2)"
    for w1 el1 fired data b ev w2
    using cust [OF that(1), of ev] fire_eventName [OF that(2)] by simp
  have "add host w arg name cb = (Inr el, w') \<and>
           handlers_of w' el name = handlers_of w el name @ [?h] \<and>
           callback ?h = Some cb \<and>
           (isCustomEvent name \<longrightarrow>
              (\<forall>ev. (eventName ev = Some name \<longrightarrow>
                       call_handler host ?h ev = Called cb el (normalize host ev el)) \<and>
                    (eventName ev \<noteq> Some name \<longrightarrow> call_handler host ?h ev = Returned_false)) \<and>
              (\<forall>w1 el1 fired data b ev w2.
                 fire host w1 el1 fired data b = (Some ev, w2) \<longrightarrow>
                   (call_handler host ?h ev = Called cb el (normalize host ev el)) =
                   (fired = name))) \<and>
           (\<not> isCustomEvent name \<longrightarrow>
              (\<forall>ev. call_handler host ?h ev = Called cb el (normalize host ev el)))"
    using a hs' cust nat fired by simp
  then show ?thesis by blast
qed

lemma add_login_request:
  "handlers_of (snd (add w3c_host init_world (Node (Elem 2)) ''login:request'' (Func 1)))
     (Elem 2) ''login:request'' =
   [\<lparr> wid = 0, h_element = Elem 2, h_eventName = ''login:request'', h_callback = Func 1,
      h_body = Custom_wrapper, callback = Some (Func 1) \<rparr>]"
  by (simp add: add_def resolve_def createHandler_def Let_def model_of_def handlers_of_def
        init_world_def isCustomEvent_def w3c_host_def)

lemma add_click:
  "handlers_of (snd (add w3c_host init_world (Node (Elem 2)) ''click'' (Func 1)))
     (Elem 2) ''click'' =
   [\<lparr> wid = 0, h_element = Elem 2, h_eventName = ''click'', h_callback = Func 1,
      h_body = Native_wrapper, callback = Some (Func 1) \<rparr>]"
  by (simp add: add_def resolve_def createHandler_def Let_def model_of_def handlers_of_def
        init_world_def isCustomEvent_def w3c_host_def)

theorem add_wrapper_witness:
  "handlers_of (snd (add w3c_host init_world (Node (Elem 2)) ''login:request'' (Func 1)))
     (Elem 2) ''login:request'' =
   [\<lparr> wid = 0, h_element = Elem 2, h_eventName = ''login:request'', h_callback = Func 1,
      h_body = Custom_wrapper, callback = Some (Func 1) \<rparr>] \<and>
   call_handler w3c_host
     \<lparr> wid = 0, h_element = Elem 2, h_eventName = ''login:request'', h_callback = Func 1,
       h_body = Custom_wrapper, callback = Some (Func 1) \<rparr>
     (bare_event\<lparr> eventName := Some ''login:request'' \<rparr>) =
   Called (Func 1) (Elem 2)
     (normalize w3c_host (bare_event\<lparr> eventName := Some ''login:request'' \<rparr>) (Elem 2)) \<and>
   call_handler w3c_host
     \<lparr> wid = 0, h_element = Elem 2, h_eventName = ''login:request'', h_callback = Func 1,
       h_body = Custom_wrapper, callback = Some (Func 1) \<rparr>
     (bare_event\<lparr> eventName := Some ''logout:request'' \<rparr>) = Returned_false \<and>
   call_handler w3c_host
     \<lparr> wid = 0, h_element = Elem 2, h_eventName = ''login:request'', h_callback = Func 1,
       h_body = Custom_wrapper, callback = Some (Func 1) \<rparr>
     bare_event = Returned_false \<and>
   handlers_of (snd (add w3c_host init_world (Node (Elem 2)) ''click'' (Func 1)))
     (Elem 2) ''click'' =
   [\<lparr> wid = 0, h_element = Elem 2, h_eventName = ''click'', h_callback = Func 1,
      h_body = Native_wrapper, callback = Some (Func 1) \<rparr>] \<and>
   call_handler w3c_host
     \<lparr> wid = 0, h_element = Elem 2, h_eventName = ''click'', h_callback = Func 1,
       h_body = Native_wrapper, callback = Some (Func 1) \<rparr>
     (bare_event\<lparr> type := Some ''click'' \<rparr>) =
   Called (Func 1) (Elem 2) (normalize w3c_host (bare_event\<lparr> type := Some ''click'' \<rparr>) (Elem 2))"
proof -
  let ?H = "\<lparr> wid = 0, h_element = Elem 2, h_eventName = ''login:request'', h_callback = Func 1,
              h_body = Custom_wrapper, callback = Some (Func 1) \<rparr>"
  let ?N = "\<lparr> wid = 0, h_element = Elem 2, h_eventName = ''click'', h_callback = Func 1,
              h_body = Native_wrapper, callback = Some (Func 1) \<rparr>"
  let ?e1 = "bare_event\<lparr> eventName := Some ''login:request'' \<rparr>"
  let ?e2 = "bare_event\<lparr> eventName := Some ''logout:request'' \<rparr>"
  let ?e3 = "bare_event\<lparr> type := Some ''click'' \<rparr>"
  have r: "resolve w3c_host (Node (Elem 2)) = Some (Elem 2)"
    by (simp add: resolve_def)
  have n: "Some (Func 1) \<notin> set (map callback (handlers_of init_world (Elem 2) name))" for name
    by (simp add: handlers_of_def model_of_def init_world_def)
  have c: "isCustomEvent ''login:request''" and nc: "\<not> isCustomEvent ''click''"
    by (simp_all add: isCustomEvent_def)
  from add_wrapper [OF r n] obtain h w'
    where a: "add w3c_host init_world (Node (Elem 2)) ''login:request'' (Func 1) = (Inr (Elem 2), w')"
      and hs: "handlers_of w' (Elem 2) ''login:request'' =
                 handlers_of init_world (Elem 2) ''login:request'' @ [h]"
      and cu: "isCustomEvent ''login:request'' \<longrightarrow>
              (\<forall>ev. (eventName ev = Some ''login:request'' \<longrightarrow>
                       call_handler w3c_host h ev =
                         Called (Func 1) (Elem 2) (normalize w3c_host ev (Elem 2))) \<and>
                    (eventName ev \<noteq> Some ''login:request'' \<longrightarrow>
                       call_handler w3c_host h ev = Returned_false))"
    by blast
  from a hs have "handlers_of (snd (add w3c_host init_world (Node (Elem 2)) ''login:request''
                    (Func 1))) (Elem 2) ''login:request'' = [h]"
    by (simp add: handlers_of_def model_of_def init_world_def)
  with add_login_request have h: "h = ?H" by simp
  from cu c have calls: "\<forall>ev. (eventName ev = Some ''login:request'' \<longrightarrow>
                       call_handler w3c_host ?H ev =
                         Called (Func 1) (Elem 2) (normalize w3c_host ev (Elem 2))) \<and>
                    (eventName ev \<noteq> Some ''login:request'' \<longrightarrow>
                       call_handler w3c_host ?H ev = Returned_false)"
    unfolding h by (rule mp)
  have 1: "call_handler w3c_host ?H ?e1 =
             Called (Func 1) (Elem 2) (normalize w3c_host ?e1 (Elem 2))"
    using calls [THEN spec, of ?e1] by simp
  have 2: "call_handler w3c_host ?H ?e2 = Returned_false"
    using calls [THEN spec, of ?e2] by simp
  have 3: "call_handler w3c_host ?H bare_event = Returned_false"
    using calls [THEN spec, of bare_event] by (simp add: bare_event_def)
  from add_wrapper [OF r n] obtain k w''
    where a': "add w3c_host init_world (Node (Elem 2)) ''click'' (Func 1) = (Inr (Elem 2), w'')"
      and hs': "handlers_of w'' (Elem 2) ''click'' =
                 handlers_of init_world (Elem 2) ''click'' @ [k]"
      and na: "\<not> isCustomEvent ''click'' \<longrightarrow>
              (\<forall>ev. call_handler w3c_host k ev =
                       Called (Func 1) (Elem 2) (normalize w3c_host ev (Elem 2)))"
    by blast
  from a' hs' have "handlers_of (snd (add w3c_host init_world (Node (Elem 2)) ''click''
                    (Func 1))) (Elem 2) ''click'' = [k]"
    by (simp add: handlers_of_def model_of_def init_world_def)
  with add_click have k: "k = ?N" by simp
  from na nc have "\<forall>ev. call_handler w3c_host ?N ev =
                       Called (Func 1) (Elem 2) (normalize w3c_host ev (Elem 2))"
    unfolding k by (rule mp)
  then have 4: "call_handler w3c_host ?N ?e3 =
                  Called (Func 1) (Elem 2) (normalize w3c_host ?e3 (Elem 2))"
    by (rule spec)
  from add_login_request 1 2 3 add_click 4 show ?thesis by (intro conjI)
qed

subsection \<open>The invariant of the handler store\<close>

lemma createHandler_handlers_of:
  assumes "createHandler w el name cb = (r, w')"
  shows "handlers_of w' el' name' =
           (if el' = el \<and> name' = name
            then (case r of None \<Rightarrow> handlers_of w el name
                  | Some h \<Rightarrow> handlers_of w el name @ [h])
            else handlers_of w el' name')"
proof (cases "Some cb \<in> set (map callback (handlers_of w el name))")
  case True
  from createHandler_registered [OF True] assms show ?thesis by auto
next
  case False
  show ?thesis
  proof (cases "storage w el")
    case None
    then show ?thesis
      using assms False
      by (auto simp: createHandler_def Let_def model_of_def handlers_of_def update_conv')
  next
    case (Some mdl)
    show ?thesis
    proof (cases "map_of mdl name")
      case None
      with Some show ?thesis
        using assms False
        by (auto simp: createHandler_def Let_def model_of_def handlers_of_def update_conv')
    next
      case (Some hs)
      with \<open>storage w el = Some mdl\<close> show ?thesis
        using assms False
        by (auto simp: createHandler_def Let_def model_of_def handlers_of_def update_conv')
    qed
  qed
qed

lemma createHandler_callback:
  assumes "createHandler w el name cb = (Some h, w')"
  shows "callback h = Some cb \<and> Some cb \<notin> set (map callback (handlers_of w el name))"
proof (cases "Some cb \<in> set (map callback (handlers_of w el name))")
  case True
  from createHandler_registered [OF True] assms show ?thesis by simp
next
  case False
  from createHandler_new [OF False] obtain w''
    where "createHandler w el name cb =
             (Some \<lparr> wid = next_wid w, h_element = el, h_eventName = name, h_callback = cb,
                     h_body = (if isCustomEvent name then Custom_wrapper else Native_wrapper),
                     callback = Some cb \<rparr>, w'')"
    by blast
  with assms have "h = \<lparr> wid = next_wid w, h_element = el, h_eventName = name, h_callback = cb,
                     h_body = (if isCustomEvent name then Custom_wrapper else Native_wrapper),
                     callback = Some cb \<rparr>"
    by simp
  then have "callback h = Some cb" by simp
  with False show ?thesis by (intro conjI)
qed

lemma registrations_absent:
  "Some cb \<notin> set (map callback hs) \<Longrightarrow> registrations cb hs = 0"
  by (induction hs) (auto simp: registrations_def)

lemma registrations_present:
  "Some cb \<in> set (map callback hs) \<Longrightarrow> 1 \<le> registrations cb hs"
  by (induction hs) (auto simp: registrations_def)

lemma registrations_append:
  "registrations cb (hs @ hs') = registrations cb hs + registrations cb hs'"
  by (simp add: registrations_def)

lemma add_handlers_of:
  "handlers_of (snd (add host w arg name cb)) el' name' =
     (case resolve host arg of
        None \<Rightarrow> handlers_of w el' name'
      | Some el \<Rightarrow> handlers_of (snd (createHandler w el name cb)) el' name')"
  by (auto simp: add_def handlers_of_def model_of_def split: option.splits prod.splits)

lemma unique_callbacks_createHandler:
  assumes "unique_callbacks w"
  shows "unique_callbacks (snd (createHandler w el name cb))"
proof -
  obtain r w' where c: "createHandler w el name cb = (r, w')"
    by (cases "createHandler w el name cb")
  have "registrations c' (handlers_of w' el' name') \<le> 1" for el' name' c'
  proof (cases r)
    case None
    with createHandler_handlers_of [OF c, of el' name'] assms show ?thesis
      by (auto simp: unique_callbacks_def)
  next
    case (Some h)
    with c createHandler_callback [of w el name cb h w']
    have h: "callback h = Some cb" and n: "Some cb \<notin> set (map callback (handlers_of w el name))"
      by simp_all
    show ?thesis
    proof (cases "el' = el \<and> name' = name")
      case False
      with createHandler_handlers_of [OF c, of el' name'] assms show ?thesis
        by (auto simp: unique_callbacks_def)
    next
      case True
      with createHandler_handlers_of [OF c, of el' name'] Some
      have eq: "handlers_of w' el' name' = handlers_of w el name @ [h]" by simp
      show ?thesis
      proof (cases "c' = cb")
        case True
        with eq h registrations_absent [OF n] show ?thesis
          by (simp add: registrations_append) (simp add: registrations_def)
      next
        case False
        with eq h have "registrations c' (handlers_of w' el' name') =
                        registrations c' (handlers_of w el name)"
          by (simp add: registrations_append) (simp add: registrations_def)
        with assms show ?thesis by (simp add: unique_callbacks_def)
      qed
    qed
  qed
  with c show ?thesis by (simp add: unique_callbacks_def)
qed

lemma unique_callbacks_add:
  assumes "unique_callbacks w"
  shows "unique_callbacks (snd (add host w arg name cb))"
proof (cases "resolve host arg")
  case None
  with assms show ?thesis by (simp add: unique_callbacks_def add_handlers_of)
next
  case (Some el)
  with unique_callbacks_createHandler [OF assms, of el name cb] show ?thesis
    by (simp add: unique_callbacks_def add_handlers_of)
qed

lemma unique_callbacks_fire:
  assumes "unique_callbacks w"
  shows "unique_callbacks (snd (fire host w el name data b))"
proof -
  have "storage (snd (fire host w el name data b)) = storage w"
    by (simp add: fire_def Let_def)
  then have "handlers_of (snd (fire host w el name data b)) = handlers_of w"
    by (simp add: handlers_of_def model_of_def fun_eq_iff)
  with assms show ?thesis by (simp add: unique_callbacks_def)
qed

subsection \<open>remove\<close>

lemma indexOf_mem:
  "h \<in> set xs \<Longrightarrow>
   0 \<le> indexOf xs h \<and> indexOf xs h < int (length xs) \<and> xs ! nat (indexOf xs h) = h"
proof (induction xs)
  case Nil
  then show ?case by simp
next
  case (Cons y ys)
  show ?case
  proof (cases "y = h")
    case True
    then show ?thesis by simp
  next
    case False
    with Cons.prems have "h \<in> set ys" by simp
    from Cons.IH [OF this] False show ?thesis
      by (simp add: Let_def nat_add_distrib)
  qed
qed

lemma splice1_at:
  "0 \<le> i \<Longrightarrow> i < int (length xs) \<Longrightarrow>
   splice1 xs i = take (nat i) xs @ drop (Suc (nat i)) xs"
  by (simp add: splice1_def Let_def min_def)

lemma splice1_indexOf: "h \<in> set xs \<Longrightarrow> splice1 xs (indexOf xs h) = remove1 h xs"
proof (induction xs)
  case Nil
  then show ?case by simp
next
  case (Cons y ys)
  show ?case
  proof (cases "y = h")
    case True
    then show ?thesis by (simp add: splice1_def)
  next
    case False
    with Cons.prems have m: "h \<in> set ys" by simp
    from indexOf_mem [OF m] have i: "0 \<le> indexOf ys h" "indexOf ys h < int (length ys)"
      by simp_all
    from Cons.IH [OF m] have ih: "take (nat (indexOf ys h)) ys @ drop (Suc (nat (indexOf ys h))) ys =
        remove1 h ys"
      by (simp add: splice1_at [OF i])
    have j: "indexOf (y # ys) h = indexOf ys h + 1"
      using False i by (simp add: Let_def)
    have "splice1 (y # ys) (indexOf ys h + 1) =
            take (nat (indexOf ys h + 1)) (y # ys) @ drop (Suc (nat (indexOf ys h + 1))) (y # ys)"
      using i by (intro splice1_at) simp_all
    also have "\<dots> = y # (take (nat (indexOf ys h)) ys @ drop (Suc (nat (indexOf ys h))) ys)"
      using i by (simp add: nat_add_distrib)
    finally show ?thesis using False ih j by simp
  qed
qed

lemma find_mem: "find P xs = Some h \<Longrightarrow> h \<in> set xs \<and> P h"
  by (induction xs) (auto split: if_splits)

lemma registrations_remove1: "registrations c (remove1 h xs) \<le> registrations c xs"
  by (induction xs) (auto simp: registrations_def)

lemma registrations_unregister:
  "callback x = None \<Longrightarrow> registrations c (xs[i := x]) \<le> registrations c xs"
proof (induction xs arbitrary: i)
  case Nil
  then show ?case by simp
next
  case (Cons y ys)
  then show ?case
    by (cases i) (auto simp: registrations_def le_SucI)
qed

lemma remove_handler_handlers_of:
  assumes "storage w el = Some mdl" and "map_of mdl name = Some hs"
  shows "handlers_of (remove_handler host w el mdl name hs cb) el' name' =
           (if el' = el \<and> name' = name then
              (case find (\<lambda>h. callback h = Some cb) hs of
                 None \<Rightarrow> hs
               | Some h \<Rightarrow>
                   if isCustomEvent name then hs[nat (indexOf hs h) := h\<lparr> callback := None \<rparr>]
                   else remove1 h hs)
            else handlers_of w el' name')"
proof (cases "find (\<lambda>h. callback h = Some cb) hs")
  case None
  with assms show ?thesis
    by (simp add: remove_handler_def handlers_of_def model_of_def)
next
  case (Some h)
  from find_mem [OF Some] have m: "h \<in> set hs" by simp
  show ?thesis
  proof (cases "isCustomEvent name")
    case True
    with Some assms show ?thesis
      by (simp add: remove_handler_def Let_def handlers_of_def model_of_def update_conv'
            delete_conv')
  next
    case False
    with Some assms splice1_indexOf [OF m] show ?thesis
      by (simp add: remove_handler_def Let_def handlers_of_def model_of_def update_conv'
            delete_conv')
  qed
qed

lemma unique_callbacks_remove_handler:
  assumes "unique_callbacks w" and "storage w el = Some mdl" and "map_of mdl name = Some hs"
  shows "unique_callbacks (remove_handler host w el mdl name hs cb)"
proof -
  have hs: "handlers_of w el name = hs"
    using assms(2,3) by (simp add: handlers_of_def model_of_def)
  have "registrations c (handlers_of (remove_handler host w el mdl name hs cb) el' name') \<le> 1"
    for c el' name'
  proof (cases "el' = el \<and> name' = name")
    case False
    with remove_handler_handlers_of [OF assms(2,3), of host cb el' name'] assms(1)
    show ?thesis by (auto simp: unique_callbacks_def)
  next
    case True
    have le: "registrations c hs \<le> 1"
      using assms(1) hs by (auto simp: unique_callbacks_def)
    have "registrations c (handlers_of (remove_handler host w el mdl name hs cb) el' name') \<le>
          registrations c hs"
    proof (cases "find (\<lambda>h. callback h = Some cb) hs")
      case None
      with True remove_handler_handlers_of [OF assms(2,3), of host cb el' name']
      show ?thesis by simp
    next
      case (Some h)
      show ?thesis
      proof (cases "isCustomEvent name")
        case cu: True
        have "callback (h\<lparr> callback := None \<rparr>) = None" by simp
        from registrations_unregister [OF this, of c hs "nat (indexOf hs h)"] True Some cu
          remove_handler_handlers_of [OF assms(2,3), of host cb el' name']
        show ?thesis by simp
      next
        case cu: False
        from registrations_remove1 [of c h hs] True Some cu
          remove_handler_handlers_of [OF assms(2,3), of host cb el' name']
        show ?thesis by simp
      qed
    qed
    with le show ?thesis by simp
  qed
  then show ?thesis by (simp add: unique_callbacks_def)
qed

lemma forEach_invariant:
  assumes "\<And>x s s'. f x s = Some s' \<Longrightarrow> P s \<Longrightarrow> P s'"
  shows "forEach f xs s = Some s' \<Longrightarrow> P s \<Longrightarrow> P s'"
proof (induction xs arbitrary: s)
  case Nil
  then show ?case by simp
next
  case (Cons x xs)
  from Cons.prems(1) obtain s1 where 1: "f x s = Some s1" and 2: "forEach f xs s1 = Some s'"
    by (auto split: option.splits)
  from assms [OF 1 Cons.prems(2)] have "P s1" .
  from Cons.IH [OF 2 this] show ?case .
qed

lemma forEach_live_invariant:
  assumes "\<And>x s s'. f x s = Some s' \<Longrightarrow> P s \<Longrightarrow> P s'"
  shows "forEach_live arr f ks s = Some s' \<Longrightarrow> P s \<Longrightarrow> P s'"
proof (induction ks arbitrary: s)
  case Nil
  then show ?case by simp
next
  case (Cons k ks)
  show ?case
  proof (cases "k < length (arr s)")
    case False
    with Cons.prems(1) have "forEach_live arr f ks s = Some s'" by simp
    from Cons.IH [OF this Cons.prems(2)] show ?thesis .
  next
    case True
    with Cons.prems(1) obtain s1 where 1: "f (arr s ! k) s = Some s1"
      and 2: "forEach_live arr f ks s1 = Some s'"
      by (auto split: option.splits)
    from assms [OF 1 Cons.prems(2)] have "P s1" .
    from Cons.IH [OF 2 this] show ?thesis .
  qed
qed

lemma unique_callbacks_remove:
  "remove fuel host w el name cb = Some w' \<Longrightarrow> unique_callbacks w \<Longrightarrow> unique_callbacks w'"
proof (induction fuel arbitrary: w el name cb w')
  case 0
  then show ?case by simp
next
  case (Suc fuel)
  note step = Suc.IH
  show ?case
  proof (cases "storage w el")
    case None
    with Suc.prems show ?thesis by simp
  next
    case (Some mdl)
    show ?thesis
    proof (cases "truthy_string name")
      case False
      with Some Suc.prems(1)
      have "forEach (\<lambda>evtName w'. remove fuel host w' el (Some evtName) None) (map fst mdl) w =
              Some w'"
        by simp
      from forEach_invariant [where P = unique_callbacks, OF _ this Suc.prems(2)] step
      show ?thesis by blast
    next
      case True
      then obtain n where n: "name = Some n" by (cases name) (simp_all add: truthy_string_def)
      show ?thesis
      proof (cases "map_of mdl n")
        case None
        with Some True n Suc.prems show ?thesis by simp
      next
        case hs: (Some hs)
        show ?thesis
        proof (cases cb)
          case None
          with Some True n hs Suc.prems(1)
          have "forEach_live (\<lambda>w'. handlers_of w' el n)
                  (\<lambda>h w'. remove fuel host w' el (Some n) (callback h)) [0..<length hs] w = Some w'"
            by simp
          from forEach_live_invariant [where P = unique_callbacks, OF _ this Suc.prems(2)] step
          show ?thesis by blast
        next
          case (Some c)
          with \<open>storage w el = Some mdl\<close> True n hs Suc.prems(1)
          have "w' = remove_handler host w el mdl n hs c" by simp
          with unique_callbacks_remove_handler [OF Suc.prems(2) \<open>storage w el = Some mdl\<close> hs]
          show ?thesis by simp
        qed
      qed
    qed
  qed
qed

lemma unique_callbacks_init: "unique_callbacks init_world"
  by (simp add: unique_callbacks_def handlers_of_def model_of_def init_world_def
        registrations_def)

lemma reachable_unique_callbacks: "reachable host w \<Longrightarrow> unique_callbacks w"
proof (induction rule: reachable.induct)
  case reachable_init
  show ?case by (rule unique_callbacks_init)
next
  case (reachable_add w arg name cb)
  then show ?case by (simp add: unique_callbacks_add)
next
  case (reachable_remove w fuel el name cb w')
  then show ?case using unique_callbacks_remove by blast
next
  case (reachable_fire w el name data b)
  then show ?case by (simp add: unique_callbacks_fire)
qed

subsection \<open>add, twice\<close>

lemma add_registered:
  assumes "resolve host arg = Some el"
    and "Some cb \<in> set (map callback (handlers_of w el name))"
  shows "add host w arg name cb = (Inr el, w)"
  using assms createHandler_registered [OF assms(2)] by (simp add: add_def)

text \<open>
  C1. In a world that calls of the module can reach, \<open>add\<close> with the same element, event
  name and callback a second time changes nothing: it returns the element, and the world
  after it (the handler store, and the calls made to the host, so no second binding) is
  the world before it. The handler array of the event name on the element then holds
  exactly one handler whose callback is the given one.
\<close>

theorem add_twice:
  assumes "reachable host w" and "resolve host arg = Some el"
  shows "\<exists>w1. add host w arg name cb = (Inr el, w1) \<and>
              add host w1 arg name cb = (Inr el, w1) \<and>
              registrations cb (handlers_of w1 el name) = 1"
proof (cases "Some cb \<in> set (map callback (handlers_of w el name))")
  case True
  from reachable_unique_callbacks [OF assms(1)]
  have "registrations cb (handlers_of w el name) \<le> 1"
    by (simp add: unique_callbacks_def)
  with registrations_present [OF True] have "registrations cb (handlers_of w el name) = 1"
    by simp
  with add_registered [OF assms(2) True] show ?thesis by simp
next
  case False
  from add_unregistered [OF assms(2) False] obtain h w1
    where a: "add host w arg name cb = (Inr el, w1)"
      and hs: "handlers_of w1 el name = handlers_of w el name @ [h]"
      and h: "callback h = Some cb"
    by force
  from hs h have "Some cb \<in> set (map callback (handlers_of w1 el name))" by simp
  from add_registered [OF assms(2) this] have b: "add host w1 arg name cb = (Inr el, w1)" .
  from hs h registrations_absent [OF False]
  have "registrations cb (handlers_of w1 el name) = 1"
    by (simp add: registrations_append) (simp add: registrations_def)
  with a b show ?thesis by simp
qed

theorem add_twice_witness:
  "reachable w3c_host init_world \<and>
   resolve w3c_host (Selector ''navigation'') = Some (Elem 2) \<and>
   add w3c_host (snd (add w3c_host init_world (Selector ''navigation'') ''click'' (Func 1)))
     (Selector ''navigation'') ''click'' (Func 1) =
   (Inr (Elem 2), snd (add w3c_host init_world (Selector ''navigation'') ''click'' (Func 1))) \<and>
   registrations (Func 1)
     (handlers_of (snd (add w3c_host init_world (Selector ''navigation'') ''click'' (Func 1)))
        (Elem 2) ''click'') = 1"
proof -
  have r: "reachable w3c_host init_world" by (rule reachable_init)
  have s: "resolve w3c_host (Selector ''navigation'') = Some (Elem 2)"
    by (simp add: resolve_def w3c_host_def)
  from add_twice [OF r s, of "''click''" "Func 1"] obtain w1
    where a: "add w3c_host init_world (Selector ''navigation'') ''click'' (Func 1) =
                (Inr (Elem 2), w1)"
      and b: "add w3c_host w1 (Selector ''navigation'') ''click'' (Func 1) = (Inr (Elem 2), w1)"
      and c: "registrations (Func 1) (handlers_of w1 (Elem 2) ''click'') = 1"
    by blast
  from a have w1: "snd (add w3c_host init_world (Selector ''navigation'') ''click'' (Func 1)) = w1"
    by simp
  from r s b c show ?thesis unfolding w1 by (intro conjI)
qed

subsection \<open>remove with an event name and a callback\<close>

lemma remove_single:
  assumes "storage w el = Some mdl" and "map_of mdl name = Some hs" and "name \<noteq> []"
  shows "remove (Suc fuel) host w el (Some name) (Some cb) =
           Some (remove_handler host w el mdl name hs cb)"
  using assms by (simp add: truthy_string_def)

lemma filter_other_callback:
  assumes "callback h = Some cb" and "c \<noteq> cb"
  shows "filter (\<lambda>x. callback x = Some c) (remove1 h hs) = filter (\<lambda>x. callback x = Some c) hs"
  using assms by (induction hs) auto

text \<open>
  Under a native event name \<open>remove\<close> does what C2 says: the first handler of the callback
  leaves the array, the handlers of other callbacks stay as they are, the wrapper is
  taken off the host, and the entry of the event name is deleted once the array is empty.
\<close>

lemma remove_native:
  assumes "storage w el = Some mdl" and "map_of mdl name = Some hs" and "name \<noteq> []"
    and "\<not> isCustomEvent name" and "find (\<lambda>x. callback x = Some cb) hs = Some h"
  shows "\<exists>w'. remove (Suc fuel) host w el (Some name) (Some cb) = Some w' \<and>
           handlers_of w' el name = remove1 h hs \<and>
           (remove1 h hs = [] \<longrightarrow> map_of (model_of w' el) name = None) \<and>
           (\<forall>c. c \<noteq> cb \<longrightarrow>
              filter (\<lambda>x. callback x = Some c) (handlers_of w' el name) =
              filter (\<lambda>x. callback x = Some c) hs) \<and>
           host_calls w' = host_calls w @
             (if removeEventListener host el then [RemoveEventListener el name (wid h)]
              else [DetachEvent el (''on'' @ name) (wid h)])"
proof -
  let ?w' = "remove_handler host w el mdl name hs cb"
  from find_mem [OF assms(5)] have m: "h \<in> set hs" and cb: "callback h = Some cb"
    by simp_all
  have 1: "remove (Suc fuel) host w el (Some name) (Some cb) = Some ?w'"
    by (rule remove_single [OF assms(1-3)])
  have 2: "handlers_of ?w' el name = remove1 h hs"
    using remove_handler_handlers_of [OF assms(1,2), of host cb el name] assms(4,5) by simp
  have 3: "map_of (model_of ?w' el) name = None" if "remove1 h hs = []"
    using that assms(4,5) splice1_indexOf [OF m]
    by (simp add: remove_handler_def Let_def model_of_def delete_conv')
  have 4: "filter (\<lambda>x. callback x = Some c) (handlers_of ?w' el name) =
           filter (\<lambda>x. callback x = Some c) hs" if "c \<noteq> cb" for c
    using filter_other_callback [OF cb that] 2 by simp
  have 5: "host_calls ?w' = host_calls w @
             (if removeEventListener host el then [RemoveEventListener el name (wid h)]
              else [DetachEvent el (''on'' @ name) (wid h)])"
    using assms(4,5) by (simp add: remove_handler_def Let_def)
  from 1 2 3 4 5 show ?thesis by blast
qed

text \<open>
  Under a custom event name the handler stays in the array, with its \<open>callback\<close> deleted;
  the array keeps its length, so the entry of the event name is never deleted.
\<close>

lemma remove_custom:
  assumes "storage w el = Some mdl" and "map_of mdl name = Some hs" and "name \<noteq> []"
    and "isCustomEvent name" and "find (\<lambda>x. callback x = Some cb) hs = Some h"
  shows "\<exists>w'. remove (Suc fuel) host w el (Some name) (Some cb) = Some w' \<and>
           handlers_of w' el name = hs[nat (indexOf hs h) := h\<lparr> callback := None \<rparr>] \<and>
           map_of (model_of w' el) name = Some (hs[nat (indexOf hs h) := h\<lparr> callback := None \<rparr>]) \<and>
           length (handlers_of w' el name) = length hs \<and> hs \<noteq> []"
proof -
  let ?w' = "remove_handler host w el mdl name hs cb"
  from find_mem [OF assms(5)] have m: "h \<in> set hs" by simp
  then have ne: "hs \<noteq> []" by auto
  have 1: "remove (Suc fuel) host w el (Some name) (Some cb) = Some ?w'"
    by (rule remove_single [OF assms(1-3)])
  have 2: "handlers_of ?w' el name = hs[nat (indexOf hs h) := h\<lparr> callback := None \<rparr>]"
    using remove_handler_handlers_of [OF assms(1,2), of host cb el name] assms(4,5) by simp
  have 3: "map_of (model_of ?w' el) name = Some (hs[nat (indexOf hs h) := h\<lparr> callback := None \<rparr>])"
    using assms(4,5) ne
    by (simp add: remove_handler_def Let_def model_of_def update_conv')
  from 1 2 3 ne show ?thesis by simp
qed

text \<open>
  C2 at a custom event name. After \<open>add(el, "login:request", cb)\<close> on the link (2),
  \<open>remove(el, "login:request", cb)\<close> leaves the store of the element with the entry of
  \<open>login:request\<close> and, in it, the handler of the callback, its \<open>callback\<close> deleted: the
  record is not removed and the entry is not deleted.
\<close>

theorem remove_custom_event_keeps_record:
  "map_option (\<lambda>w. model_of w (Elem 2))
     (remove (Suc 0) w3c_host
        (snd (add w3c_host init_world (Node (Elem 2)) ''login:request'' (Func 1)))
        (Elem 2) (Some ''login:request'') (Some (Func 1))) =
   Some [(''login:request'',
          [\<lparr> wid = 0, h_element = Elem 2, h_eventName = ''login:request'', h_callback = Func 1,
             h_body = Custom_wrapper, callback = None \<rparr>])]"
  by (simp add: add_def resolve_def createHandler_def Let_def model_of_def handlers_of_def
        init_world_def isCustomEvent_def w3c_host_def truthy_string_def remove_handler_def)

text \<open>The same calls under the native event name \<open>click\<close> leave the store empty.\<close>

lemma remove_native_event_deletes_entry:
  "map_option (\<lambda>w. model_of w (Elem 2))
     (remove (Suc 0) w3c_host
        (snd (add w3c_host init_world (Node (Elem 2)) ''click'' (Func 1)))
        (Elem 2) (Some ''click'') (Some (Func 1))) =
   Some []"
  by (simp add: add_def resolve_def createHandler_def Let_def model_of_def handlers_of_def
        init_world_def isCustomEvent_def w3c_host_def truthy_string_def remove_handler_def
        splice1_def)

text \<open>
  With the stale handler in the array, \<open>remove(el, "login:request")\<close> without a callback
  calls itself with the deleted callback of that handler, and so on: at no depth of calls
  does it return.
\<close>

lemma remove_all_with_stale_handler:
  assumes "storage w el = Some mdl" and "map_of mdl name = Some [h]" and "name \<noteq> []"
    and "callback h = None"
  shows "remove fuel host w el (Some name) None = None"
proof (induction fuel)
  case 0
  show ?case by simp
next
  case (Suc fuel)
  have "handlers_of w el name = [h]"
    using assms(1,2) by (simp add: handlers_of_def model_of_def)
  with Suc assms show ?case
    by (simp add: truthy_string_def)
qed

end
